theory Spec2Isabelle
  imports Main "HOL-Library.Sublist" "HOL-Library.AList"
begin

section \<open>Strings\<close>

text \<open>
  A JavaScript string is modelled by the list of the bytes of its UTF-8 encoding
  (\<^typ>\<open>string\<close>). On well-formed text \<^verbatim>\<open>String.prototype.includes\<close> and the
  literal-plus-digits regular expressions of the executor see the same matches on bytes as
  on UTF-16 code units. The chart emoji that opens the two state markers of
  \<^verbatim>\<open>server/services/zkToolExecutor.ts\<close> is the four bytes F0 9F 93 8A.
\<close>

text \<open>\<^verbatim>\<open>s.includes(sub)\<close>: \<open>sub\<close> occurs in \<open>s\<close> as a contiguous run.\<close>

fun str_includes :: "string \<Rightarrow> string \<Rightarrow> bool" where
  "str_includes [] sub = (sub = [])"
| "str_includes (c # cs) sub = (prefix sub (c # cs) \<or> str_includes cs sub)"

text \<open>The class \<^verbatim>\<open>\d\<close> of a regular expression without the unicode flag.\<close>

definition is_digit :: "char \<Rightarrow> bool" where
  "is_digit c = (c \<in> set ''0123456789'')"

text \<open>
  An attempt of the expression \<^verbatim>\<open>/<label>(\d+)/\<close> at the start of \<open>s\<close>: the label, then
  the longest non-empty run of digits, which is the capture group.
\<close>

definition digits_after :: "string \<Rightarrow> string \<Rightarrow> string option" where
  "digits_after label s =
     (if prefix label s
      then (let d = takeWhile is_digit (drop (length label) s)
            in if d = [] then None else Some d)
      else None)"

text \<open>
  \<^verbatim>\<open>s.match(/<label>(\d+)/)\<close>: the leftmost position where the attempt succeeds;
  the result is \<^verbatim>\<open>match[1]\<close>, or \<open>None\<close> for \<^verbatim>\<open>null\<close>.
\<close>

fun regex_capture :: "string \<Rightarrow> string \<Rightarrow> string option" where
  "regex_capture label [] = digits_after label []"
| "regex_capture label (c # cs) =
     (case digits_after label (c # cs) of
        Some d \<Rightarrow> Some d
      | None \<Rightarrow> regex_capture label cs)"

text \<open>\<^verbatim>\<open>xs.join(sep)\<close>.\<close>

fun join :: "string \<Rightarrow> string list \<Rightarrow> string" where
  "join sep [] = []"
| "join sep [x] = x"
| "join sep (x # y # ys) = x @ sep @ join sep (y # ys)"

section \<open>The console interception of \<^verbatim>\<open>executeDirectly\<close>\<close>

text \<open>
  The snapshot objects \<^verbatim>\<open>capturedBeforeState\<close> and \<^verbatim>\<open>capturedAfterState\<close>: created with
  the single field \<^verbatim>\<open>totalCompaniesTracked\<close>; every other field is absent until assigned.
\<close>

record StateSnapshot =
  totalCompaniesTracked :: string
  compliantCompaniesCount :: "string option"
  globalComplianceScore :: "string option"
  totalVerificationsGlobal :: "string option"
  registryVersion :: "string option"
  companiesRootHash :: "string option"

text \<open>The values taken by the string variable \<^verbatim>\<open>currentPhase\<close>.\<close>

datatype phase =
    BeforeStateProcess
  | BeforeStateCapturing
  | VerificationProcess
  | AfterStateCapturing
  | ExecutionCompleting

text \<open>The value returned by a direct execution function (\<^verbatim>\<open>any\<close> in the source).\<close>

datatype cap_value = Undefined | Verdict bool string

text \<open>
  The argument of \<^verbatim>\<open>broadcastExecutionUpdate\<close>, by its \<^verbatim>\<open>type\<close> field. The \<^verbatim>\<open>message\<close>
  field is a constant of each type and is left out.
\<close>

datatype update =
    ExecutionStarted string
  | PhaseUpdate phase
  | BeforeStateCaptured StateSnapshot
  | AfterStateCaptured StateSnapshot
  | ExecutionCompleted cap_value "StateSnapshot option" "StateSnapshot option"
  | ExecutionFailed string

text \<open>
  The variables closed over by the replacement \<^verbatim>\<open>console.log\<close>, and \<open>updates\<close>, the
  arguments of the calls of \<^verbatim>\<open>broadcastExecutionUpdate\<close> so far, oldest first.
\<close>

record capture =
  capturedBeforeState :: "StateSnapshot option"
  capturedAfterState :: "StateSnapshot option"
  currentPhase :: phase
  stdout :: string
  updates :: "update list"

definition emit :: "update \<Rightarrow> capture \<Rightarrow> capture" where
  "emit u c = c\<lparr>updates := updates c @ [u]\<rparr>"

definition chart_emoji :: string where
  "chart_emoji = [CHR 0xF0, CHR 0x9F, CHR 0x93, CHR 0x8A]"

definition before_marker :: string where
  "before_marker = chart_emoji @ '' Smart Contract State BEFORE Verification:''"

definition after_marker :: string where
  "after_marker = chart_emoji @ '' Smart Contract State AFTER Verification:''"

definition new_snapshot :: "string \<Rightarrow> StateSnapshot" where
  "new_snapshot m =
     \<lparr>totalCompaniesTracked = m, compliantCompaniesCount = None,
      globalComplianceScore = None, totalVerificationsGlobal = None,
      registryVersion = None, companiesRootHash = None\<rparr>"

text \<open>The three tests of the block guarded by \<^verbatim>\<open>currentPhase === 'before_state_capturing'\<close>.\<close>

definition before_total :: "string \<Rightarrow> capture \<Rightarrow> capture" where
  "before_total output c =
     (if str_includes output ''Total Companies:''
      then (case regex_capture ''Total Companies: '' output of
              Some m \<Rightarrow>
                (if capturedBeforeState c = None
                 then c\<lparr>capturedBeforeState := Some (new_snapshot m)\<rparr>
                 else c)
            | None \<Rightarrow> c)
      else c)"

definition before_compliant :: "string \<Rightarrow> capture \<Rightarrow> capture" where
  "before_compliant output c =
     (if str_includes output ''Compliant Companies:''
      then (case regex_capture ''Compliant Companies: '' output of
              Some m \<Rightarrow>
                (case capturedBeforeState c of
                   Some snap \<Rightarrow>
                     c\<lparr>capturedBeforeState := Some (snap\<lparr>compliantCompaniesCount := Some m\<rparr>)\<rparr>
                 | None \<Rightarrow> c)
            | None \<Rightarrow> c)
      else c)"

definition before_score :: "string \<Rightarrow> capture \<Rightarrow> capture" where
  "before_score output c =
     (if str_includes output ''Global Compliance Score:''
      then (case regex_capture ''Global Compliance Score: '' output of
              Some m \<Rightarrow>
                (case capturedBeforeState c of
                   Some snap \<Rightarrow>
                     (let full = snap\<lparr>globalComplianceScore := Some m,
                                      totalVerificationsGlobal := Some ''0'',
                                      registryVersion := Some ''1'',
                                      companiesRootHash := Some ''initial-hash''\<rparr>;
                          c1 = emit (BeforeStateCaptured full) (c\<lparr>capturedBeforeState := Some full\<rparr>);
                          c2 = c1\<lparr>currentPhase := VerificationProcess\<rparr>
                      in emit (PhaseUpdate VerificationProcess) c2)
                 | None \<Rightarrow> c)
            | None \<Rightarrow> c)
      else c)"

text \<open>The same three tests of the block guarded by \<^verbatim>\<open>currentPhase === 'after_state_capturing'\<close>.\<close>

definition after_total :: "string \<Rightarrow> capture \<Rightarrow> capture" where
  "after_total output c =
     (if str_includes output ''Total Companies:''
      then (case regex_capture ''Total Companies: '' output of
              Some m \<Rightarrow>
                (if capturedAfterState c = None
                 then c\<lparr>capturedAfterState := Some (new_snapshot m)\<rparr>
                 else c)
            | None \<Rightarrow> c)
      else c)"

definition after_compliant :: "string \<Rightarrow> capture \<Rightarrow> capture" where
  "after_compliant output c =
     (if str_includes output ''Compliant Companies:''
      then (case regex_capture ''Compliant Companies: '' output of
              Some m \<Rightarrow>
                (case capturedAfterState c of
                   Some snap \<Rightarrow>
                     c\<lparr>capturedAfterState := Some (snap\<lparr>compliantCompaniesCount := Some m\<rparr>)\<rparr>
                 | None \<Rightarrow> c)
            | None \<Rightarrow> c)
      else c)"

definition after_score :: "string \<Rightarrow> capture \<Rightarrow> capture" where
  "after_score output c =
     (if str_includes output ''Global Compliance Score:''
      then (case regex_capture ''Global Compliance Score: '' output of
              Some m \<Rightarrow>
                (case capturedAfterState c of
                   Some snap \<Rightarrow>
                     (let full = snap\<lparr>globalComplianceScore := Some m,
                                      totalVerificationsGlobal := Some ''1'',
                                      registryVersion := Some ''1'',
                                      companiesRootHash := Some ''updated-hash''\<rparr>;
                          c1 = emit (AfterStateCaptured full) (c\<lparr>capturedAfterState := Some full\<rparr>)
                      in c1\<lparr>currentPhase := ExecutionCompleting\<rparr>)
                 | None \<Rightarrow> c)
            | None \<Rightarrow> c)
      else c)"

text \<open>
  The replacement \<^verbatim>\<open>console.log\<close> installed by \<^verbatim>\<open>executeDirectly\<close>, on the line
  \<^verbatim>\<open>output = args.join(' ')\<close>. The final call of the original \<^verbatim>\<open>console.log\<close> writes the
  line to the process output whatever was matched and changes none of these variables.
\<close>

definition console_log :: "string \<Rightarrow> capture \<Rightarrow> capture" where
  "console_log output c0 =
     (let c1 = c0\<lparr>stdout := stdout c0 @ output @ [CHR 0x0A]\<rparr>;
          c2 = (if str_includes output before_marker
                then emit (PhaseUpdate BeforeStateCapturing) (c1\<lparr>currentPhase := BeforeStateCapturing\<rparr>)
                else c1);
          c3 = (if currentPhase c2 = BeforeStateCapturing
                then before_score output (before_compliant output (before_total output c2))
                else c2);
          c4 = (if str_includes output after_marker
                then emit (PhaseUpdate AfterStateCapturing) (c3\<lparr>currentPhase := AfterStateCapturing\<rparr>)
                else c3)
      in (if currentPhase c4 = AfterStateCapturing
          then after_score output (after_compliant output (after_total output c4))
          else c4))"

text \<open>A diagnostic stream: the lines logged during one invocation, in order.\<close>

fun console_lines :: "string list \<Rightarrow> capture \<Rightarrow> capture" where
  "console_lines [] c = c"
| "console_lines (l # ls) c = console_lines ls (console_log l c)"

text \<open>The variables as \<^verbatim>\<open>executeDirectly\<close> declares them, after its first broadcast.\<close>

definition initial_capture :: "string \<Rightarrow> capture" where
  "initial_capture toolName =
     \<lparr>capturedBeforeState = None, capturedAfterState = None,
      currentPhase = BeforeStateProcess, stdout = [],
      updates = [ExecutionStarted toolName]\<rparr>"

section \<open>The tool executor (\<^verbatim>\<open>server/services/zkToolExecutor.ts\<close>)\<close>

text \<open>Decimal rendering of a number inside a template literal.\<close>

definition digit_char :: "nat \<Rightarrow> char" where
  "digit_char n = ''0123456789'' ! (n mod 10)"

function show_nat :: "nat \<Rightarrow> string" where
  "show_nat n = (if n < 10 then [digit_char n] else show_nat (n div 10) @ [digit_char n])"
  by pat_completeness auto
termination
  by (relation "measure (\<lambda>n. n)") auto

declare show_nat.simps [simp del]

definition show_int :: "int \<Rightarrow> string" where
  "show_int i = (if i < 0 then CHR ''-'' # show_nat (nat (- i)) else show_nat (nat i))"

text \<open>
  A thrown value: an \<^verbatim>\<open>Error\<close> with its message, or any other value, given by what
  \<^verbatim>\<open>String(error)\<close> makes of it.
\<close>

datatype thrown = Error string | NonError string

text \<open>\<^verbatim>\<open>error instanceof Error ? error.message : 'Unknown error'\<close>\<close>

fun error_message :: "thrown \<Rightarrow> string" where
  "error_message (Error msg) = msg"
| "error_message (NonError v) = ''Unknown error''"

text \<open>\<^verbatim>\<open>error instanceof Error ? error.message : String(error)\<close>\<close>

fun error_string :: "thrown \<Rightarrow> string" where
  "error_string (Error msg) = msg"
| "error_string (NonError v) = v"

type_synonym params = "(string \<times> string) list"

text \<open>
  One invocation of a direct execution function, as the executor sees it: the lines that
  reach the replaced \<^verbatim>\<open>console.log\<close> while it runs, the milliseconds it takes, and how
  the awaited promise ends. The progress lines that \<^verbatim>\<open>executeDirectly\<close> logs itself
  carry neither a marker nor a label and are left out of the stream.
\<close>

datatype finish = Returns cap_value | Throws thrown | NeverReturns

record invocation =
  logged :: "string list"
  elapsed :: nat
  finish :: finish

type_synonym capability = "params \<Rightarrow> invocation"

text \<open>A compiled script module: its exported functions, in the order of \<^verbatim>\<open>Object.keys\<close>.\<close>

type_synonym script_module = "(string \<times> capability) list"

record ZKExecutorConfig =
  stdioPath :: string
  stdioBuildPath :: string
  timeout :: nat

text \<open>
  What the executor takes from the platform: \<^verbatim>\<open>path.join\<close>, \<^verbatim>\<open>existsSync\<close>, the dynamic
  \<^verbatim>\<open>import\<close> of a script path, and the message of the \<^verbatim>\<open>TypeError\<close> that \<^verbatim>\<open>path.join\<close>
  raises when its last argument is the member of \<^verbatim>\<open>Object.prototype\<close> of the given name.
\<close>

record host =
  path_join :: "string \<Rightarrow> string \<Rightarrow> string \<Rightarrow> string"
  existsSync :: "string \<Rightarrow> bool"
  import_module :: "string \<Rightarrow> thrown + script_module"
  invalid_path_message :: "string \<Rightarrow> string"

definition getAvailableTools :: "string list" where
  "getAvailableTools =
     [''get-GLEIF-verification-with-sign'',
      ''get-Corporate-Registration-verification-with-sign'',
      ''get-EXIM-verification-with-sign'',
      ''get-Composed-Compliance-verification-with-sign'',
      ''get-BSDI-compliance-verification'',
      ''get-BPI-compliance-verification'',
      ''get-RiskLiquidityACTUS-Verifier-Test_adv_zk'',
      ''get-RiskLiquidityACTUS-Verifier-Test_Basel3_Withsign'',
      ''get-RiskLiquidityBasel3Optim-Merkle-verification-with-sign'',
      ''get-RiskLiquidityAdvancedOptimMerkle-verification-with-sign'',
      ''get-StablecoinProofOfReservesRisk-verification-with-sign'',
      ''execute-composed-proof-full-kyc'',
      ''execute-composed-proof-financial-risk'',
      ''execute-composed-proof-business-integrity'',
      ''execute-composed-proof-comprehensive'']"

definition toolScriptMap :: "(string \<times> string) list" where
  "toolScriptMap =
     [(''get-GLEIF-verification-with-sign'', ''GLEIFOptimMultiCompanyVerificationTestWithSign.js''),
      (''get-Corporate-Registration-verification-with-sign'',
         ''CorporateRegistrationOptimMultiCompanyVerificationTestWithSign.js''),
      (''get-EXIM-verification-with-sign'', ''EXIMOptimMultiCompanyVerificationTestWithSign.js''),
      (''get-Composed-Compliance-verification-with-sign'',
         ''ComposedRecursiveOptim3LevelVerificationTestWithSign.js''),
      (''get-BSDI-compliance-verification'',
         ''BusinessStdIntegrityOptimMerkleVerificationTestWithSign.js''),
      (''get-BPI-compliance-verification'',
         ''BusinessProcessIntegrityOptimMerkleVerificationFileTestWithSign.js''),
      (''get-RiskLiquidityACTUS-Verifier-Test_adv_zk'',
         ''RiskLiquidityAdvancedOptimMerkleVerificationTestWithSign.js''),
      (''get-RiskLiquidityACTUS-Verifier-Test_Basel3_Withsign'',
         ''RiskLiquidityBasel3OptimMerkleVerificationTestWithSign.js''),
      (''get-RiskLiquidityBasel3Optim-Merkle-verification-with-sign'',
         ''RiskLiquidityBasel3OptimMerkleVerificationTestWithSign.js''),
      (''get-RiskLiquidityAdvancedOptimMerkle-verification-with-sign'',
         ''RiskLiquidityAdvancedOptimMerkleVerificationTestWithSign.js''),
      (''get-StablecoinProofOfReservesRisk-verification-with-sign'',
         ''RiskLiquidityStableCoinOptimMerkleVerificationTestWithSign.js''),
      (''execute-composed-proof-full-kyc'', ''ComposedRecursiveOptim3LevelVerificationTestWithSign.js''),
      (''execute-composed-proof-financial-risk'',
         ''ComposedRecursiveOptim3LevelVerificationTestWithSign.js''),
      (''execute-composed-proof-business-integrity'',
         ''ComposedRecursiveOptim3LevelVerificationTestWithSign.js''),
      (''execute-composed-proof-comprehensive'',
         ''ComposedRecursiveOptim3LevelVerificationTestWithSign.js'')]"

text \<open>
  \<^verbatim>\<open>toolScriptMap\<close> is an object literal, so \<^verbatim>\<open>toolScriptMap[toolName]\<close> also finds the
  members it inherits from \<^verbatim>\<open>Object.prototype\<close>; each of them is a function or an object,
  hence truthy, and passes the test \<^verbatim>\<open>!scriptFile\<close>.
\<close>

definition object_prototype_members :: "string list" where
  "object_prototype_members =
     [''constructor'', ''__defineGetter__'', ''__defineSetter__'', ''hasOwnProperty'',
      ''__lookupGetter__'', ''__lookupSetter__'', ''isPrototypeOf'', ''propertyIsEnumerable'',
      ''toString'', ''valueOf'', ''__proto__'', ''toLocaleString'']"

datatype property = ScriptFile string | Inherited | Absent

definition script_lookup :: "string \<Rightarrow> property" where
  "script_lookup toolName =
     (case map_of toolScriptMap toolName of
        Some scriptFile \<Rightarrow> ScriptFile scriptFile
      | None \<Rightarrow> (if toolName \<in> set object_prototype_members then Inherited else Absent))"

text \<open>
  The \<^verbatim>\<open>switch\<close> of \<^verbatim>\<open>executeDirectly\<close>: the exported function called for a tool, and
  whether the error for a missing export lists the functions of the module.
\<close>

definition direct_function :: "string \<Rightarrow> (string \<times> bool) option" where
  "direct_function toolName =
     map_of
       [(''get-GLEIF-verification-with-sign'', (''executeGLEIFVerificationDirect'', False)),
        (''get-BSDI-compliance-verification'', (''executeBSDIVerificationDirect'', True)),
        (''get-RiskLiquidityBasel3Optim-Merkle-verification-with-sign'',
           (''executeBasel3VerificationDirect'', True)),
        (''get-EXIM-verification-with-sign'', (''executeEXIMVerificationDirect'', False)),
        (''get-Corporate-Registration-verification-with-sign'',
           (''executeCorporateRegistrationVerificationDirect'', False)),
        (''get-BPI-compliance-verification'', (''executeBPIVerificationDirect'', True)),
        (''get-StablecoinProofOfReservesRisk-verification-with-sign'',
           (''executeStablecoinVerificationDirect'', True)),
        (''get-RiskLiquidityAdvancedOptimMerkle-verification-with-sign'',
           (''executeAdvancedVerificationDirect'', True))]
       toolName"

text \<open>
  The object returned by \<^verbatim>\<open>executeDirectly\<close> under \<^verbatim>\<open>result\<close>, without its constant
  descriptive strings, \<^verbatim>\<open>systemExecution\<close>, \<^verbatim>\<open>stateChanges\<close> and \<^verbatim>\<open>stderr\<close>.
  Instants are milliseconds since the epoch, not rendered by \<^verbatim>\<open>toISOString\<close>.
\<close>

record response =
  verification_success :: bool
  verification_status :: string
  contractStateBefore :: "StateSnapshot option"
  contractStateAfter :: "StateSnapshot option"
  direct_result :: cap_value
  response_status :: string
  response_zkProofGenerated :: bool
  response_timestamp :: int
  response_output :: string
  response_executionTime :: string

text \<open>The object built in the \<^verbatim>\<open>catch\<close> of \<^verbatim>\<open>executeTool\<close>.\<close>

record failure =
  failure_status :: string
  failure_zkProofGenerated :: bool
  failure_timestamp :: int
  failure_error :: string
  failure_executionMode :: string

datatype tool_result = Response response | Failure failure

record ToolExecutionResult =
  success :: bool
  tool_result :: tool_result
  executionTime :: string

text \<open>
  An asynchronous call, seen from its caller: how the returned promise settles
  (\<open>None\<close>: it never does; \<open>Inl\<close>: it rejects; \<open>Inr\<close>: it resolves), the updates handed
  to \<^verbatim>\<open>broadcastExecutionUpdate\<close> on the way, and the errors thrown outside every
  \<^verbatim>\<open>try\<close> block and every promise, on the stack of a timer callback.
\<close>

record 'a async =
  settlement :: "(thrown + 'a) option"
  broadcasts :: "update list"
  uncaught :: "thrown list"

text \<open>\<^verbatim>\<open>result?.success || false\<close>\<close>

fun cap_success :: "cap_value \<Rightarrow> bool" where
  "cap_success Undefined = False"
| "cap_success (Verdict b payload) = b"

definition build_response :: "cap_value \<Rightarrow> capture \<Rightarrow> int \<Rightarrow> int \<Rightarrow> response" where
  "build_response v c t0 t1 =
     \<lparr>verification_success = cap_success v,
      verification_status =
        (if cap_success v then ''verification_passed'' else ''verification_failed''),
      contractStateBefore = capturedBeforeState c,
      contractStateAfter = capturedAfterState c,
      direct_result = v,
      response_status = ''completed'',
      response_zkProofGenerated = True,
      response_timestamp = t1,
      response_output = stdout c,
      response_executionTime = show_int (t1 - t0) @ ''ms''\<rparr>"

text \<open>
  The callback given to \<^verbatim>\<open>setTimeout\<close> throws; it does not reject the promise of
  \<^verbatim>\<open>executeDirectly\<close>. The timer is cleared by \<^verbatim>\<open>clearTimeout\<close> only on the path where
  the direct function has returned, so it fires on every other path, and on that one when
  the function took the whole timeout.
\<close>

definition timeout_error :: "ZKExecutorConfig \<Rightarrow> thrown" where
  "timeout_error cfg = Error (''Direct execution timeout after '' @ show_nat (timeout cfg) @ ''ms'')"

text \<open>The outer \<^verbatim>\<open>catch\<close> of \<^verbatim>\<open>executeDirectly\<close>: broadcast, then rethrow.\<close>

definition direct_failed :: "ZKExecutorConfig \<Rightarrow> thrown \<Rightarrow> capture \<Rightarrow> response async" where
  "direct_failed cfg e c =
     \<lparr>settlement = Some (Inl e),
      broadcasts = updates c @ [ExecutionFailed (error_string e)],
      uncaught = [timeout_error cfg]\<rparr>"

definition executeDirectly ::
  "host \<Rightarrow> ZKExecutorConfig \<Rightarrow> string \<Rightarrow> params \<Rightarrow> string \<Rightarrow> int \<Rightarrow> int \<Rightarrow> response async" where
  "executeDirectly h cfg scriptPath parameters toolName t0 t1 =
     (let c0 = initial_capture toolName
      in case import_module h scriptPath of
           Inl e \<Rightarrow> direct_failed cfg e c0
         | Inr scriptModule \<Rightarrow>
             (case direct_function toolName of
                None \<Rightarrow>
                  direct_failed cfg
                    (Error (''Direct execution not implemented for tool: '' @ toolName)) c0
              | Some (fname, verbose) \<Rightarrow>
                  (case map_of scriptModule fname of
                     None \<Rightarrow>
                       direct_failed cfg
                         (Error (fname @ '' function not found in module''
                            @ (if verbose
                               then ''. Available functions: '' @ join '', '' (map fst scriptModule)
                               else [])))
                         c0
                   | Some f \<Rightarrow>
                       (let inv = f parameters;
                            c1 = console_lines (logged inv) c0
                        in case finish inv of
                             NeverReturns \<Rightarrow>
                               \<lparr>settlement = None, broadcasts = updates c1,
                                uncaught = [timeout_error cfg]\<rparr>
                           | Throws e \<Rightarrow> direct_failed cfg e c1
                           | Returns v \<Rightarrow>
                               \<lparr>settlement = Some (Inr (build_response v c1 t0 t1)),
                                broadcasts = updates c1 @
                                  [ExecutionCompleted v (capturedBeforeState c1) (capturedAfterState c1)],
                                uncaught =
                                  (if elapsed inv < timeout cfg then [] else [timeout_error cfg])\<rparr>))))"

definition rejected :: "thrown \<Rightarrow> response async" where
  "rejected e = \<lparr>settlement = Some (Inl e), broadcasts = [], uncaught = []\<rparr>"

definition executeCompiledScript ::
  "host \<Rightarrow> ZKExecutorConfig \<Rightarrow> string \<Rightarrow> params \<Rightarrow> string \<Rightarrow> int \<Rightarrow> int \<Rightarrow> response async" where
  "executeCompiledScript h cfg scriptFile parameters toolName t0 t1 =
     (let compiledScriptPath = path_join h (stdioPath cfg) (stdioBuildPath cfg) scriptFile
      in if \<not> existsSync h compiledScriptPath
         then rejected (Error (''Compiled JavaScript file not found: '' @ compiledScriptPath
                @ ''. Please run 'npm run build' first.''))
         else executeDirectly h cfg compiledScriptPath parameters toolName t0 t1)"

definition executeIntegratedTool ::
  "host \<Rightarrow> ZKExecutorConfig \<Rightarrow> string \<Rightarrow> params \<Rightarrow> int \<Rightarrow> int \<Rightarrow> response async" where
  "executeIntegratedTool h cfg toolName parameters t0 t1 =
     (case script_lookup toolName of
        Absent \<Rightarrow>
          rejected (Error (''Unknown tool: '' @ toolName @ ''. Available tools: ''
            @ join '', '' (map fst toolScriptMap)))
      | Inherited \<Rightarrow> rejected (Error (invalid_path_message h toolName))
      | ScriptFile scriptFile \<Rightarrow> executeCompiledScript h cfg scriptFile parameters toolName t0 t1)"

text \<open>
  \<^verbatim>\<open>executeTool\<close>: \<open>t0\<close> and \<open>t1\<close> are the readings of \<^verbatim>\<open>Date.now()\<close> when the call starts
  and when the awaited promise has settled. The alternative of \<^verbatim>\<open>result.result || {...}\<close>
  is never taken, \<^verbatim>\<open>executeDirectly\<close> returning an object under \<^verbatim>\<open>result\<close>.
\<close>

definition executeTool ::
  "host \<Rightarrow> ZKExecutorConfig \<Rightarrow> string \<Rightarrow> params \<Rightarrow> int \<Rightarrow> int \<Rightarrow> ToolExecutionResult async" where
  "executeTool h cfg toolName parameters t0 t1 =
     (let r = executeIntegratedTool h cfg toolName parameters t0 t1
      in \<lparr>settlement =
            (case settlement r of
               None \<Rightarrow> None
             | Some (Inr res) \<Rightarrow>
                 Some (Inr \<lparr>success = True, tool_result = Response res,
                            executionTime = show_int (t1 - t0) @ ''ms''\<rparr>)
             | Some (Inl e) \<Rightarrow>
                 Some (Inr \<lparr>success = False,
                            tool_result = Failure
                              \<lparr>failure_status = ''failed'', failure_zkProofGenerated = False,
                               failure_timestamp = t1, failure_error = error_message e,
                               failure_executionMode = ''integrated-server-direct-only''\<rparr>,
                            executionTime = show_int (t1 - t0) @ ''ms''\<rparr>)),
          broadcasts = broadcasts r,
          uncaught = uncaught r\<rparr>)"

section \<open>The job manager (\<^verbatim>\<open>server/integrated-server.ts\<close>)\<close>

datatype job_status = Pending | Running | Completed | Failed

text \<open>
  \<^verbatim>\<open>job.result\<close>: the fields of the executor's result (the spread \<^verbatim>\<open>...result\<close>, kept
  together under \<open>spread\<close>) and the four fields added by \<^verbatim>\<open>processJob\<close>.
\<close>

record JobResult =
  spread :: ToolExecutionResult
  executionTimeMs :: int
  result_jobId :: string
  completedAt :: int
  result_mode :: string

text \<open>
  The interface \<^verbatim>\<open>Job\<close>. The field \<^verbatim>\<open>id\<close> is \<open>job_id\<close> here; an optional field is
  \<open>None\<close> while it is absent.
\<close>

record Job =
  job_id :: string
  toolName :: string
  parameters :: params
  status :: job_status
  startTime :: int
  endTime :: "int option"
  result :: "JobResult option"
  error :: "string option"
  progress :: "nat option"

text \<open>
  The object serialized by \<^verbatim>\<open>broadcastJobUpdate\<close>, without its constant \<^verbatim>\<open>type\<close>
  (\<^verbatim>\<open>'job_update'\<close>) and \<^verbatim>\<open>server\<close> fields. \<^verbatim>\<open>JSON.stringify\<close> is taken to be injective,
  so the serialized text is identified with the object.
\<close>

record job_update =
  update_jobId :: string
  update_status :: job_status
  update_progress :: "nat option"
  update_result :: "JobResult option"
  update_error :: "string option"
  update_timestamp :: int

datatype frame = JobUpdate job_update | ExecutionUpdate update int

text \<open>
  A WebSocket of \<^verbatim>\<open>wss.clients\<close>: its \<^verbatim>\<open>readyState\<close> (0 connecting, 1 open, 2 closing,
  3 closed) and the frames handed to its \<^verbatim>\<open>send\<close> so far, oldest first. On an open socket
  \<^verbatim>\<open>send\<close> queues the frame and returns; it does not throw.
\<close>

record client =
  readyState :: nat
  sent :: "frame list"

definition send :: "frame \<Rightarrow> client \<Rightarrow> client" where
  "send message c = c\<lparr>sent := sent c @ [message]\<rparr>"

text \<open>The loop \<^verbatim>\<open>clients.forEach\<close> shared by both broadcast functions.\<close>

definition send_to_open :: "frame \<Rightarrow> client list \<Rightarrow> client list" where
  "send_to_open message cs =
     map (\<lambda>c. if readyState c = 1 then send message c else c) cs"

definition job_update_of :: "Job \<Rightarrow> int \<Rightarrow> job_update" where
  "job_update_of job now =
     \<lparr>update_jobId = job_id job, update_status = status job, update_progress = progress job,
      update_result = result job, update_error = error job, update_timestamp = now\<rparr>"

definition broadcastJobUpdate :: "Job \<Rightarrow> int \<Rightarrow> client list \<Rightarrow> client list" where
  "broadcastJobUpdate job now cs =
     (let message = JobUpdate (job_update_of job now)
      in send_to_open message cs)"

text \<open>
  \<^verbatim>\<open>broadcastExecutionUpdate\<close> of the executor; \<open>wsServer\<close> is \<^verbatim>\<open>global.wsServer\<close>,
  \<open>None\<close> while it is not set.
\<close>

definition broadcastExecutionUpdate :: "update \<Rightarrow> int \<Rightarrow> client list option \<Rightarrow> client list option" where
  "broadcastExecutionUpdate u now wsServer =
     (case wsServer of
        None \<Rightarrow> None
      | Some cs \<Rightarrow>
          (let message = ExecutionUpdate u now
           in Some (send_to_open message cs)))"

text \<open>
  The state of the server process that the job manager works on: the \<^verbatim>\<open>Job\<close> objects
  allocated so far (a reference to a \<^verbatim>\<open>Job\<close> is its index in \<open>heap\<close>; objects are never
  freed while referenced, and a reference held by running code points into the heap), the
  map \<^verbatim>\<open>this.jobs\<close> from job id to reference in insertion order, and the sockets of
  \<^verbatim>\<open>this.wss.clients\<close>. The functions of the manager below queue on these sockets the frames
  that \<^verbatim>\<open>broadcastJobUpdate\<close> sends. The executor sends its own frames to the same sockets
  through \<^verbatim>\<open>global.wsServer\<close>, the first of them (\<^verbatim>\<open>execution_started\<close>, for a catalog tool
  whose script is built) inside the call of \<^verbatim>\<open>startJob\<close>; they are the \<open>broadcasts\<close> of
  \<^verbatim>\<open>executeTool\<close> and are not queued here, so that what a socket has received from the
  manager is read through \<open>job_updates\<close>, which passes over the frames of the executor.
\<close>

record manager =
  heap :: "Job list"
  jobs :: "(string \<times> nat) list"
  clients :: "client list"

definition assign :: "nat \<Rightarrow> (Job \<Rightarrow> Job) \<Rightarrow> manager \<Rightarrow> manager" where
  "assign a f m = m\<lparr>heap := (heap m)[a := f (heap m ! a)]\<rparr>"

definition publish :: "nat \<Rightarrow> int \<Rightarrow> manager \<Rightarrow> manager" where
  "publish a now m = m\<lparr>clients := broadcastJobUpdate (heap m ! a) now (clients m)\<rparr>"

text \<open>The object literal of \<^verbatim>\<open>startJob\<close>.\<close>

definition new_job :: "string \<Rightarrow> string \<Rightarrow> params \<Rightarrow> int \<Rightarrow> Job" where
  "new_job jobId tool ps now =
     \<lparr>job_id = jobId, toolName = tool, parameters = ps, status = Pending, startTime = now,
      endTime = None, result = None, error = None, progress = None\<rparr>"

text \<open>
  \<^verbatim>\<open>startJob\<close> up to the call of \<^verbatim>\<open>processJob\<close>: allocate the literal, \<^verbatim>\<open>this.jobs.set\<close>,
  first broadcast. The result is the reference to the new object.
\<close>

definition createJob :: "string \<Rightarrow> string \<Rightarrow> params \<Rightarrow> int \<Rightarrow> manager \<Rightarrow> nat \<times> manager" where
  "createJob jobId tool ps now m =
     (let a = length (heap m);
          m1 = m\<lparr>heap := heap m @ [new_job jobId tool ps now],
                 jobs := AList.update jobId a (jobs m)\<rparr>
      in (a, publish a now m1))"

text \<open>
  \<^verbatim>\<open>processJob\<close> from its first statement to the \<^verbatim>\<open>await\<close>: these statements run inside
  the call \<^verbatim>\<open>this.processJob(job)\<close>, before \<^verbatim>\<open>startJob\<close> reaches its \<^verbatim>\<open>return\<close>.
\<close>

definition processJob_begin :: "nat \<Rightarrow> int \<Rightarrow> manager \<Rightarrow> manager" where
  "processJob_begin a now m =
     (let m1 = assign a (\<lambda>job. job\<lparr>status := Running\<rparr>) m;
          m2 = assign a (\<lambda>job. job\<lparr>progress := Some 0\<rparr>) m1;
          m3 = publish a now m2;
          m4 = assign a (\<lambda>job. job\<lparr>progress := Some 10\<rparr>) m3
      in publish a now m4)"

definition startJob :: "string \<Rightarrow> string \<Rightarrow> params \<Rightarrow> int \<Rightarrow> manager \<Rightarrow> nat \<times> manager" where
  "startJob jobId tool ps now m =
     (let (job, m1) = createJob jobId tool ps now m
      in (job, processJob_begin job now m1))"

text \<open>
  \<^verbatim>\<open>processJob\<close> from the point where the awaited promise of \<^verbatim>\<open>executeTool\<close> has settled
  to its end: the rest of the \<^verbatim>\<open>try\<close> block when it resolved, the \<^verbatim>\<open>catch\<close> block when it
  rejected, then the last broadcast. \<open>t0\<close> is the reading of \<^verbatim>\<open>Date.now()\<close> taken before
  the call, \<open>now\<close> the time of the resumption.
\<close>

definition processJob_resume ::
  "nat \<Rightarrow> thrown + ToolExecutionResult \<Rightarrow> int \<Rightarrow> int \<Rightarrow> manager \<Rightarrow> manager" where
  "processJob_resume a settled t0 now m =
     (case settled of
        Inr r \<Rightarrow>
          (let m1 = assign a (\<lambda>job. job\<lparr>status := Completed\<rparr>) m;
               m2 = assign a (\<lambda>job. job\<lparr>result :=
                      Some \<lparr>spread = r, executionTimeMs = now - t0, result_jobId = job_id job,
                            completedAt = now, result_mode = ''async-integrated-server''\<rparr>\<rparr>) m1;
               m3 = assign a (\<lambda>job. job\<lparr>endTime := Some now\<rparr>) m2;
               m4 = assign a (\<lambda>job. job\<lparr>progress := Some 100\<rparr>) m3
           in publish a now m4)
      | Inl e \<Rightarrow>
          (let m1 = assign a (\<lambda>job. job\<lparr>status := Failed\<rparr>) m;
               m2 = assign a (\<lambda>job. job\<lparr>error := Some (error_message e)\<rparr>) m1;
               m3 = assign a (\<lambda>job. job\<lparr>endTime := Some now\<rparr>) m2
           in publish a now m3))"

text \<open>
  The driving task of the job at \<open>a\<close> after its suspension, with the executor in place:
  \<open>None\<close> when the promise of \<^verbatim>\<open>executeTool\<close> never settles, so that the task never
  resumes and the manager is left as it is.
\<close>

definition processJob_await ::
  "host \<Rightarrow> ZKExecutorConfig \<Rightarrow> nat \<Rightarrow> int \<Rightarrow> int \<Rightarrow> manager \<Rightarrow> manager option" where
  "processJob_await h cfg a t0 t1 m =
     (case settlement (executeTool h cfg (toolName (heap m ! a)) (parameters (heap m ! a)) t0 t1) of
        None \<Rightarrow> None
      | Some settled \<Rightarrow> Some (processJob_resume a settled t0 t1 m))"

definition getJobRef :: "manager \<Rightarrow> string \<Rightarrow> nat option" where
  "getJobRef m jobId = map_of (jobs m) jobId"

definition getJob :: "manager \<Rightarrow> string \<Rightarrow> Job option" where
  "getJob m jobId = map_option (\<lambda>a. heap m ! a) (getJobRef m jobId)"

definition getAllJobRefs :: "manager \<Rightarrow> nat list" where
  "getAllJobRefs m = map snd (jobs m)"

definition getAllJobs :: "manager \<Rightarrow> Job list" where
  "getAllJobs m = map (\<lambda>a. heap m ! a) (getAllJobRefs m)"

definition getActiveJobs :: "manager \<Rightarrow> Job list" where
  "getActiveJobs m = filter (\<lambda>job. status job = Pending \<or> status job = Running) (getAllJobs m)"

definition clearCompletedJobs :: "manager \<Rightarrow> manager" where
  "clearCompletedJobs m =
     m\<lparr>jobs := filter (\<lambda>(jobId, a). \<not> (status (heap m ! a) = Completed \<or> status (heap m ! a) = Failed))
                  (jobs m)\<rparr>"

section \<open>Runs of the server\<close>

text \<open>
  Where the driving task of a \<^verbatim>\<open>Job\<close> object stands: created and not yet entered, suspended
  at its \<^verbatim>\<open>await\<close>, or returned.
\<close>

datatype task = Created | Awaiting | Finished

record server =
  mgr :: manager
  tasks :: "task list"

text \<open>
  What happens in the process, one atomic piece of synchronous code at a time. \<open>Create\<close>
  followed at once by \<open>Begin\<close> of the new reference is a call of \<^verbatim>\<open>startJob\<close>; the runs
  below also allow other events in between, which only adds runs. \<open>Settle\<close> resumes a
  suspended task with the way its awaited promise has settled. The last two are a socket
  joining \<^verbatim>\<open>wss.clients\<close> and a socket changing its \<^verbatim>\<open>readyState\<close>.
\<close>

datatype event =
    Create string string params int
  | Begin nat int
  | Settle nat "thrown + ToolExecutionResult" int int
  | ClearCompleted
  | Connect
  | SetReadyState nat nat

fun step :: "event \<Rightarrow> server \<Rightarrow> server" where
  "step (Create jobId tool ps now) s =
     \<lparr>mgr = snd (createJob jobId tool ps now (mgr s)), tasks = tasks s @ [Created]\<rparr>"
| "step (Begin a now) s =
     (if a < length (tasks s) \<and> tasks s ! a = Created
      then \<lparr>mgr = processJob_begin a now (mgr s), tasks = (tasks s)[a := Awaiting]\<rparr>
      else s)"
| "step (Settle a settled t0 now) s =
     (if a < length (tasks s) \<and> tasks s ! a = Awaiting
      then \<lparr>mgr = processJob_resume a settled t0 now (mgr s), tasks = (tasks s)[a := Finished]\<rparr>
      else s)"
| "step ClearCompleted s = s\<lparr>mgr := clearCompletedJobs (mgr s)\<rparr>"
| "step Connect s =
     s\<lparr>mgr := (mgr s)\<lparr>clients := clients (mgr s) @ [\<lparr>readyState = 1, sent = []\<rparr>]\<rparr>\<rparr>"
| "step (SetReadyState i n) s =
     s\<lparr>mgr := (mgr s)\<lparr>clients := (clients (mgr s))[i := (clients (mgr s) ! i)\<lparr>readyState := n\<rparr>]\<rparr>\<rparr>"

text \<open>The states a run goes through, the starting state first.\<close>

fun states :: "event list \<Rightarrow> server \<Rightarrow> server list" where
  "states [] s = [s]"
| "states (e # es) s = s # states es (step e s)"

definition initial_server :: server where
  "initial_server = \<lparr>mgr = \<lparr>heap = [], jobs = [], clients = []\<rparr>, tasks = []\<rparr>"

text \<open>The values of \<^verbatim>\<open>status\<close> of the object at \<open>a\<close> along a list of states, from its creation.\<close>

definition status_history :: "nat \<Rightarrow> server list \<Rightarrow> job_status list" where
  "status_history a ss =
     map (\<lambda>s. status (heap (mgr s) ! a)) (filter (\<lambda>s. a < length (heap (mgr s))) ss)"

definition terminal :: "job_status \<Rightarrow> bool" where
  "terminal st = (st = Completed \<or> st = Failed)"


text \<open>The state after a run.\<close>

definition run :: "event list \<Rightarrow> server \<Rightarrow> server" where
  "run es s = last (states es s)"

text \<open>The number of frames handed to the sockets of a list.\<close>

definition deliveries :: "client list \<Rightarrow> nat" where
  "deliveries cs = sum_list (map (\<lambda>c. length (sent c)) cs)"

text \<open>The frames of \<^verbatim>\<open>job_update\<close> among the frames of a socket, as status and progress.\<close>

fun job_updates :: "frame list \<Rightarrow> (job_status \<times> nat option) list" where
  "job_updates [] = []"
| "job_updates (JobUpdate u # fs) = (update_status u, update_progress u) # job_updates fs"
| "job_updates (ExecutionUpdate u t # fs) = job_updates fs"

text \<open>The error message inside a result of the executor, empty when there is none.\<close>

definition failure_text :: "tool_result \<Rightarrow> string" where
  "failure_text r = (case r of Failure f \<Rightarrow> failure_error f | Response x \<Rightarrow> [])"

section \<open>Invariants of a run\<close>

text \<open>
  The registry holds each id once and each reference once, and every reference in it points
  into the heap.
\<close>

definition registry_ok :: "manager \<Rightarrow> bool" where
  "registry_ok m =
     (distinct (map fst (jobs m)) \<and> distinct (map snd (jobs m))
      \<and> list_all (\<lambda>a. a < length (heap m)) (map snd (jobs m)))"

text \<open>What the record of a \<^verbatim>\<open>Job\<close> holds at each point of its driving task.\<close>

fun consistent :: "task \<Rightarrow> Job \<Rightarrow> bool" where
  "consistent Created job = (status job = Pending \<and> endTime job = None)"
| "consistent Awaiting job = (status job = Running \<and> endTime job = None)"
| "consistent Finished job = (terminal (status job) \<and> endTime job \<noteq> None)"

definition tasks_ok :: "server \<Rightarrow> bool" where
  "tasks_ok s = list_all2 consistent (tasks s) (heap (mgr s))"

text \<open>One value of \<^verbatim>\<open>status\<close> may follow another.\<close>

definition may_follow :: "job_status \<Rightarrow> job_status \<Rightarrow> bool" where
  "may_follow x y = (x = y \<or> (x = Pending \<and> y = Running) \<or> (x = Running \<and> terminal y))"

fun chain :: "job_status list \<Rightarrow> bool" where
  "chain [] = True"
| "chain [x] = True"
| "chain (x # y # ys) = (may_follow x y \<and> chain (y # ys))"

text \<open>The record that \<^verbatim>\<open>processJob\<close> leaves behind, from the record at the resumption.\<close>

fun finished_job :: "thrown + ToolExecutionResult \<Rightarrow> int \<Rightarrow> int \<Rightarrow> Job \<Rightarrow> Job" where
  "finished_job (Inr r) t0 now job =
     job\<lparr>status := Completed,
         result := Some \<lparr>spread = r, executionTimeMs = now - t0, result_jobId = job_id job,
                        completedAt = now, result_mode = ''async-integrated-server''\<rparr>,
         endTime := Some now, progress := Some 100\<rparr>"
| "finished_job (Inl e) t0 now job =
     job\<lparr>status := Failed, error := Some (error_message e), endTime := Some now\<rparr>"

section \<open>Example environments\<close>

definition example_config :: ZKExecutorConfig where
  "example_config =
     \<lparr>stdioPath = ''/app'', stdioBuildPath = ''./build/src/tests/with-sign'', timeout = 1800000\<rparr>"

definition example_join :: "string \<Rightarrow> string \<Rightarrow> string \<Rightarrow> string" where
  "example_join a b c = a @ ''/'' @ b @ ''/'' @ c"

text \<open>A host on which no compiled script has been built.\<close>

definition unbuilt_host :: host where
  "unbuilt_host =
     \<lparr>path_join = example_join, existsSync = (\<lambda>p. False),
      import_module = (\<lambda>p. Inl (Error ''Cannot find module'')),
      invalid_path_message = (\<lambda>name. ''The path argument must be of type string'')\<rparr>"

text \<open>
  A host whose scripts are built and export the GLEIF direct function with the given
  behaviour.
\<close>

definition gleif_host :: "capability \<Rightarrow> host" where
  "gleif_host f =
     \<lparr>path_join = example_join, existsSync = (\<lambda>p. True),
      import_module = (\<lambda>p. Inr [(''executeGLEIFVerificationDirect'', f)]),
      invalid_path_message = (\<lambda>name. ''The path argument must be of type string'')\<rparr>"

definition hanging :: capability where
  "hanging ps = \<lparr>logged = [], elapsed = 0, finish = NeverReturns\<rparr>"

definition throwing :: capability where
  "throwing ps = \<lparr>logged = [], elapsed = 5, finish = Throws (Error ''GLEIF API unreachable'')\<rparr>"

definition empty_manager :: manager where
  "empty_manager = \<lparr>heap = [], jobs = [], clients = []\<rparr>"

definition one_subscriber :: manager where
  "one_subscriber = \<lparr>heap = [], jobs = [], clients = [\<lparr>readyState = 1, sent = []\<rparr>]\<rparr>"

section \<open>Properties of the console interception\<close>

lemma emit_fields [simp]:
  "capturedBeforeState (emit u c) = capturedBeforeState c"
  "capturedAfterState (emit u c) = capturedAfterState c"
  "currentPhase (emit u c) = currentPhase c"
  "stdout (emit u c) = stdout c"
  by (simp_all add: emit_def)

lemma after_keeps_before [simp]:
  "capturedBeforeState (after_total l c) = capturedBeforeState c"
  "capturedBeforeState (after_compliant l c) = capturedBeforeState c"
  "capturedBeforeState (after_score l c) = capturedBeforeState c"
  by (simp_all add: after_total_def after_compliant_def after_score_def Let_def
      split: option.splits)

lemma before_total_no_match:
  "regex_capture ''Total Companies: '' l = None \<Longrightarrow> before_total l c = c"
  by (simp add: before_total_def)

lemma before_compliant_discard:
  "capturedBeforeState c = None \<Longrightarrow> before_compliant l c = c"
  by (simp add: before_compliant_def split: option.splits)

lemma before_score_discard:
  "capturedBeforeState c = None \<Longrightarrow> before_score l c = c"
  by (simp add: before_score_def split: option.splits)

lemma console_log_no_snapshot:
  assumes "capturedBeforeState c = None"
    and "regex_capture ''Total Companies: '' l = None"
  shows "capturedBeforeState (console_log l c) = None"
  using assms
  by (simp add: console_log_def Let_def before_total_no_match before_compliant_discard
      before_score_discard)

lemma console_lines_no_snapshot:
  "capturedBeforeState c = None \<Longrightarrow>
   \<forall>l\<in>set ls. regex_capture ''Total Companies: '' l = None \<Longrightarrow>
   capturedBeforeState (console_lines ls c) = None"
  by (induction ls arbitrary: c) (simp_all add: console_log_no_snapshot)

lemma regex_capture_includes:
  "regex_capture label s = Some m \<Longrightarrow> str_includes s label"
  by (induction s) (auto simp: digits_after_def split: option.splits if_splits)

lemma str_includes_shorter:
  "str_includes s (a @ b) \<Longrightarrow> str_includes s a"
  by (induction s) (auto simp: prefix_def)

lemma regex_capture_includes_label:
  assumes "regex_capture (label @ '' '') s = Some m"
  shows "str_includes s label"
  using regex_capture_includes [OF assms] by (rule str_includes_shorter)

lemma console_log_creates:
  assumes "currentPhase c = BeforeStateCapturing"
    and "capturedBeforeState c = None"
    and "regex_capture ''Total Companies: '' l = Some v"
    and "\<not> str_includes l ''Compliant Companies:''"
    and "\<not> str_includes l ''Global Compliance Score:''"
  shows "capturedBeforeState (console_log l c) = Some (new_snapshot v)"
proof -
  have "str_includes l ''Total Companies:''"
    using regex_capture_includes_label [of "''Total Companies:''" l v] assms(3) by simp
  then show ?thesis
    using assms
    by (simp add: console_log_def Let_def before_total_def before_compliant_def
        before_score_def)
qed

lemma console_log_attaches:
  assumes "currentPhase c = BeforeStateCapturing"
    and "capturedBeforeState c = Some snap"
    and "regex_capture ''Compliant Companies: '' l = Some v"
    and "\<not> str_includes l ''Global Compliance Score:''"
  shows "capturedBeforeState (console_log l c) = Some (snap\<lparr>compliantCompaniesCount := Some v\<rparr>)"
proof -
  have "str_includes l ''Compliant Companies:''"
    using regex_capture_includes_label [of "''Compliant Companies:''" l v] assms(3) by simp
  then show ?thesis
    using assms
    by (simp add: console_log_def Let_def before_total_def before_compliant_def
        before_score_def split: option.splits)
qed

lemmas console_unfold =
  console_log_def initial_capture_def before_marker_def after_marker_def chart_emoji_def
  before_total_def before_compliant_def before_score_def emit_def new_snapshot_def
  digits_after_def is_digit_def Let_def

lemma stream_with_total:
  "capturedBeforeState
     (console_lines [before_marker, ''Total Companies: 7'', ''Compliant Companies: 5'',
                     ''Global Compliance Score: 80''] (initial_capture t))
   = Some \<lparr>totalCompaniesTracked = ''7'', compliantCompaniesCount = Some ''5'',
           globalComplianceScore = Some ''80'', totalVerificationsGlobal = Some ''0'',
           registryVersion = Some ''1'', companiesRootHash = Some ''initial-hash''\<rparr>"
  by (simp add: console_unfold)

lemma stream_without_total:
  "capturedBeforeState
     (console_lines [before_marker, ''Compliant Companies: 5'', ''Global Compliance Score: 80'']
        (initial_capture t)) = None"
  by (simp add: console_unfold)

text \<open>
  C4. While the before state is being captured, the snapshot is created only by a line on
  which the first pattern \<^verbatim>\<open>Total Companies: (\d+)\<close> matches: a line on which it does not
  match leaves an absent snapshot absent, whatever else the line matches, and a stream none
  of whose lines matches it ends without a snapshot. A match of the first pattern creates the
  snapshot with that single field, and a match of \<^verbatim>\<open>Compliant Companies: (\d+)\<close> is attached
  to a snapshot that exists. The stream of the before marker, \<^verbatim>\<open>Total Companies: 7\<close>,
  \<^verbatim>\<open>Compliant Companies: 5\<close> and \<^verbatim>\<open>Global Compliance Score: 80\<close> yields the snapshot with
  these three values and the three fixed defaults; the same stream without the
  \<^verbatim>\<open>Total Companies:\<close> line yields no snapshot.
\<close>

theorem extraction_ordering:
  "(capturedBeforeState c = None \<and> regex_capture ''Total Companies: '' l = None
      \<longrightarrow> capturedBeforeState (console_log l c) = None)
   \<and> ((\<forall>l\<in>set ls. regex_capture ''Total Companies: '' l = None)
      \<longrightarrow> capturedBeforeState (console_lines ls (initial_capture t)) = None)
   \<and> (currentPhase c = BeforeStateCapturing \<and> capturedBeforeState c = None
       \<and> regex_capture ''Total Companies: '' l = Some v
       \<and> \<not> str_includes l ''Compliant Companies:''
       \<and> \<not> str_includes l ''Global Compliance Score:''
      \<longrightarrow> capturedBeforeState (console_log l c) = Some (new_snapshot v))
   \<and> (currentPhase c = BeforeStateCapturing \<and> capturedBeforeState c = Some snap
       \<and> regex_capture ''Compliant Companies: '' l = Some v
       \<and> \<not> str_includes l ''Global Compliance Score:''
      \<longrightarrow> capturedBeforeState (console_log l c)
            = Some (snap\<lparr>compliantCompaniesCount := Some v\<rparr>))
   \<and> capturedBeforeState
       (console_lines [before_marker, ''Total Companies: 7'', ''Compliant Companies: 5'',
                       ''Global Compliance Score: 80''] (initial_capture t))
     = Some \<lparr>totalCompaniesTracked = ''7'', compliantCompaniesCount = Some ''5'',
             globalComplianceScore = Some ''80'', totalVerificationsGlobal = Some ''0'',
             registryVersion = Some ''1'', companiesRootHash = Some ''initial-hash''\<rparr>
   \<and> capturedBeforeState
       (console_lines [before_marker, ''Compliant Companies: 5'', ''Global Compliance Score: 80'']
          (initial_capture t)) = None"
proof (intro conjI impI)
  assume "capturedBeforeState c = None \<and> regex_capture ''Total Companies: '' l = None"
  then show "capturedBeforeState (console_log l c) = None"
    by (simp add: console_log_no_snapshot)
next
  assume "\<forall>l\<in>set ls. regex_capture ''Total Companies: '' l = None"
  then show "capturedBeforeState (console_lines ls (initial_capture t)) = None"
    by (intro console_lines_no_snapshot) (simp_all add: initial_capture_def)
next
  assume "currentPhase c = BeforeStateCapturing \<and> capturedBeforeState c = None
       \<and> regex_capture ''Total Companies: '' l = Some v
       \<and> \<not> str_includes l ''Compliant Companies:''
       \<and> \<not> str_includes l ''Global Compliance Score:''"
  then show "capturedBeforeState (console_log l c) = Some (new_snapshot v)"
    by (intro console_log_creates) simp_all
next
  assume "currentPhase c = BeforeStateCapturing \<and> capturedBeforeState c = Some snap
       \<and> regex_capture ''Compliant Companies: '' l = Some v
       \<and> \<not> str_includes l ''Global Compliance Score:''"
  then show "capturedBeforeState (console_log l c) = Some (snap\<lparr>compliantCompaniesCount := Some v\<rparr>)"
    by (intro console_log_attaches) simp_all
qed (rule stream_with_total stream_without_total)+

theorem extraction_ordering_witness:
  "capturedBeforeState (initial_capture ''tool'') = None
   \<and> regex_capture ''Total Companies: '' ''Compliant Companies: 5'' = None
   \<and> capturedBeforeState (console_log ''Compliant Companies: 5'' (initial_capture ''tool'')) = None
   \<and> regex_capture ''Total Companies: '' before_marker = None
   \<and> capturedBeforeState
       (console_lines [before_marker, ''Compliant Companies: 5''] (initial_capture ''tool'')) = None"
  using extraction_ordering [of "initial_capture ''tool''" "''Compliant Companies: 5''"
      "[before_marker, ''Compliant Companies: 5'']" "''tool''"]
  by (simp add: initial_capture_def digits_after_def before_marker_def chart_emoji_def)

section \<open>Properties of the broadcast\<close>

lemma length_send_to_open [simp]: "length (send_to_open f cs) = length cs"
  by (simp add: send_to_open_def)

lemma nth_send_to_open:
  "i < length cs \<Longrightarrow>
   send_to_open f cs ! i = (if readyState (cs ! i) = 1 then send f (cs ! i) else cs ! i)"
  by (simp add: send_to_open_def)

lemma deliveries_send_to_open:
  "deliveries (send_to_open f cs) = deliveries cs + length (filter (\<lambda>c. readyState c = 1) cs)"
  by (induction cs) (simp_all add: deliveries_def send_to_open_def send_def)

lemma readyState_send_to_open [simp]:
  "map readyState (send_to_open f cs) = map readyState cs"
  by (simp add: send_to_open_def send_def)

text \<open>
  C7. A publish, by \<^verbatim>\<open>broadcastJobUpdate\<close> as by \<^verbatim>\<open>broadcastExecutionUpdate\<close>, builds one
  frame and hands that same frame once to each socket whose \<^verbatim>\<open>readyState\<close> is 1; every other
  socket is left as it was, with nothing queued for it. The number of deliveries is the
  number of open sockets. Both functions return for every list of sockets; the second also
  returns when no server is set. With three open sockets and a closed one there are three
  deliveries.
\<close>

theorem publish_fan_out:
  "length (broadcastJobUpdate job now cs) = length cs
   \<and> (\<forall>i<length cs.
        broadcastJobUpdate job now cs ! i =
          (if readyState (cs ! i) = 1
           then (cs ! i)\<lparr>sent := sent (cs ! i) @ [JobUpdate (job_update_of job now)]\<rparr>
           else cs ! i))
   \<and> deliveries (broadcastJobUpdate job now cs)
       = deliveries cs + length (filter (\<lambda>c. readyState c = 1) cs)
   \<and> (\<exists>cs'. broadcastExecutionUpdate u now (Some cs) = Some cs'
        \<and> length cs' = length cs
        \<and> (\<forall>i<length cs.
             cs' ! i =
               (if readyState (cs ! i) = 1
                then (cs ! i)\<lparr>sent := sent (cs ! i) @ [ExecutionUpdate u now]\<rparr>
                else cs ! i))
        \<and> deliveries cs' = deliveries cs + length (filter (\<lambda>c. readyState c = 1) cs))
   \<and> broadcastExecutionUpdate u now None = None"
  by (simp add: broadcastJobUpdate_def broadcastExecutionUpdate_def nth_send_to_open
      deliveries_send_to_open send_def)

theorem publish_fan_out_witness:
  "deliveries
     (broadcastJobUpdate (new_job ''j'' ''t'' [] 0) 1
        [\<lparr>readyState = 1, sent = []\<rparr>, \<lparr>readyState = 3, sent = []\<rparr>,
         \<lparr>readyState = 1, sent = []\<rparr>, \<lparr>readyState = 1, sent = []\<rparr>]) = 3
   \<and> broadcastJobUpdate (new_job ''j'' ''t'' [] 0) 1
        [\<lparr>readyState = 1, sent = []\<rparr>, \<lparr>readyState = 3, sent = []\<rparr>,
         \<lparr>readyState = 1, sent = []\<rparr>, \<lparr>readyState = 1, sent = []\<rparr>] ! 1
       = \<lparr>readyState = 3, sent = []\<rparr>"
  using publish_fan_out [of "new_job ''j'' ''t'' [] 0" 1
      "[\<lparr>readyState = 1, sent = []\<rparr>, \<lparr>readyState = 3, sent = []\<rparr>,
        \<lparr>readyState = 1, sent = []\<rparr>, \<lparr>readyState = 1, sent = []\<rparr>]"]
  by (simp add: deliveries_def)

section \<open>Properties of the registry\<close>

lemma heap_publish [simp]: "heap (publish a now m) = heap m"
  by (simp add: publish_def)

lemma jobs_publish [simp]: "jobs (publish a now m) = jobs m"
  by (simp add: publish_def)

lemma jobs_assign [simp]: "jobs (assign a f m) = jobs m"
  by (simp add: assign_def)

lemma clients_assign [simp]: "clients (assign a f m) = clients m"
  by (simp add: assign_def)

lemma length_heap_assign [simp]: "length (heap (assign a f m)) = length (heap m)"
  by (simp add: assign_def)

lemma heap_assign_same:
  "a < length (heap m) \<Longrightarrow> heap (assign a f m) ! a = f (heap m ! a)"
  by (simp add: assign_def)

lemma heap_assign_other:
  "b \<noteq> a \<Longrightarrow> heap (assign a f m) ! b = heap m ! b"
  by (simp add: assign_def)

lemma jobs_processJob_begin [simp]: "jobs (processJob_begin a now m) = jobs m"
  by (simp add: processJob_begin_def Let_def)

lemma length_heap_processJob_begin [simp]:
  "length (heap (processJob_begin a now m)) = length (heap m)"
  by (simp add: processJob_begin_def Let_def)

lemma heap_processJob_begin_other:
  "b \<noteq> a \<Longrightarrow> heap (processJob_begin a now m) ! b = heap m ! b"
  by (simp add: processJob_begin_def Let_def heap_assign_other)

lemma heap_processJob_begin_same:
  "a < length (heap m) \<Longrightarrow>
   heap (processJob_begin a now m) ! a = (heap m ! a)\<lparr>status := Running, progress := Some 10\<rparr>"
  by (simp add: processJob_begin_def Let_def heap_assign_same)

lemma createJob_fst [simp]: "fst (createJob jobId tool ps now m) = length (heap m)"
  by (simp add: createJob_def Let_def)

lemma createJob_heap [simp]:
  "heap (snd (createJob jobId tool ps now m)) = heap m @ [new_job jobId tool ps now]"
  by (simp add: createJob_def Let_def)

lemma createJob_jobs [simp]:
  "jobs (snd (createJob jobId tool ps now m)) = AList.update jobId (length (heap m)) (jobs m)"
  by (simp add: createJob_def Let_def)

lemma startJob_fst [simp]: "fst (startJob jobId tool ps now m) = length (heap m)"
  by (simp add: startJob_def split_beta)

lemma startJob_jobs [simp]:
  "jobs (snd (startJob jobId tool ps now m)) = AList.update jobId (length (heap m)) (jobs m)"
  by (simp add: startJob_def split_beta)

lemma startJob_heap_old:
  "b < length (heap m) \<Longrightarrow> heap (snd (startJob jobId tool ps now m)) ! b = heap m ! b"
  by (simp add: startJob_def split_beta heap_processJob_begin_other nth_append)

lemma startJob_heap_new:
  "heap (snd (startJob jobId tool ps now m)) ! length (heap m)
     = (new_job jobId tool ps now)\<lparr>status := Running, progress := Some 10\<rparr>"
  by (simp add: startJob_def split_beta heap_processJob_begin_same)

lemma startJob_length_heap [simp]:
  "length (heap (snd (startJob jobId tool ps now m))) = Suc (length (heap m))"
  by (simp add: startJob_def split_beta)

lemma update_values_subset:
  "set (map snd (AList.update k v al)) \<subseteq> insert v (set (map snd al))"
  by (induction al) auto

lemma update_existing_length:
  "k \<in> fst ` set al \<Longrightarrow> length (AList.update k v al) = length al"
  by (induction al) auto

lemma update_drops_old_value:
  assumes "distinct (map snd al)" and "map_of al k = Some old" and "v \<noteq> old"
    and "distinct (map fst al)"
  shows "old \<notin> set (map snd (AList.update k v al))"
  using assms
proof (induction al)
  case Nil
  then show ?case by simp
next
  case (Cons p al)
  obtain k' v' where p: "p = (k', v')" by (cases p)
  show ?case
  proof (cases "k' = k")
    case True
    with Cons.prems p show ?thesis by auto
  next
    case False
    with Cons.prems p have "old \<notin> set (map snd (AList.update k v al))"
      by (intro Cons.IH) auto
    moreover from Cons.prems p False have "v' \<noteq> old"
      by (auto dest!: map_of_SomeD) (metis image_eqI snd_conv)
    ultimately show ?thesis using p False by simp
  qed
qed

lemma clients_publish [simp]:
  "clients (publish a now m) = broadcastJobUpdate (heap m ! a) now (clients m)"
  by (simp add: publish_def)

lemma heap_assign:
  "heap (assign a f m) = (heap m)[a := f (heap m ! a)]"
  by (simp add: assign_def)

lemma heap_processJob_begin:
  "a < length (heap m) \<Longrightarrow>
   heap (processJob_begin a now m)
     = (heap m)[a := (heap m ! a)\<lparr>status := Running, progress := Some 10\<rparr>]"
  by (simp add: processJob_begin_def Let_def heap_assign)

lemma heap_processJob_resume:
  "a < length (heap m) \<Longrightarrow>
   heap (processJob_resume a settled t0 now m)
     = (heap m)[a := finished_job settled t0 now (heap m ! a)]"
  by (cases settled) (simp_all add: processJob_resume_def Let_def heap_assign)

lemma length_heap_processJob_resume [simp]:
  "length (heap (processJob_resume a settled t0 now m)) = length (heap m)"
  by (cases settled) (simp_all add: processJob_resume_def Let_def)

lemma jobs_processJob_resume [simp]: "jobs (processJob_resume a settled t0 now m) = jobs m"
  by (cases settled) (simp_all add: processJob_resume_def Let_def)

lemma clients_processJob_begin:
  "a < length (heap m) \<Longrightarrow>
   clients (processJob_begin a now m)
     = send_to_open (JobUpdate (job_update_of ((heap m ! a)\<lparr>status := Running, progress := Some 10\<rparr>) now))
         (send_to_open (JobUpdate (job_update_of ((heap m ! a)\<lparr>status := Running, progress := Some 0\<rparr>) now))
            (clients m))"
  by (simp add: processJob_begin_def Let_def heap_assign broadcastJobUpdate_def)

lemma clients_processJob_resume:
  "a < length (heap m) \<Longrightarrow>
   clients (processJob_resume a settled t0 now m)
     = send_to_open (JobUpdate (job_update_of (finished_job settled t0 now (heap m ! a)) now))
         (clients m)"
  by (cases settled)
     (simp_all add: processJob_resume_def Let_def heap_assign broadcastJobUpdate_def)

lemma clients_createJob:
  "clients (snd (createJob jobId tool ps now m))
     = send_to_open (JobUpdate (job_update_of (new_job jobId tool ps now) now)) (clients m)"
  by (simp add: createJob_def Let_def broadcastJobUpdate_def)

lemma heap_clearCompletedJobs [simp]: "heap (clearCompletedJobs m) = heap m"
  by (simp add: clearCompletedJobs_def)

subsection \<open>The registry stays well formed\<close>

lemma distinct_update_values:
  "distinct (map snd al) \<Longrightarrow> v \<notin> set (map snd al) \<Longrightarrow> distinct (map snd (AList.update k v al))"
proof (induction al)
  case Nil
  then show ?case by simp
next
  case (Cons p al)
  have "set (map snd (AList.update k v al)) \<subseteq> insert v (set (map snd al))"
    by (rule update_values_subset)
  with Cons show ?case by (cases p) auto
qed

lemma registry_ok_createJob:
  assumes "registry_ok m"
  shows "registry_ok (snd (createJob jobId tool ps now m))"
proof -
  have fresh: "length (heap m) \<notin> set (map snd (jobs m))"
    using assms by (auto simp: registry_ok_def list_all_iff)
  have sub: "set (map snd (AList.update jobId (length (heap m)) (jobs m)))
          \<subseteq> insert (length (heap m)) (set (map snd (jobs m)))"
    by (rule update_values_subset)
  have "\<forall>b\<in>set (map snd (AList.update jobId (length (heap m)) (jobs m))). b < Suc (length (heap m))"
  proof
    fix b
    assume "b \<in> set (map snd (AList.update jobId (length (heap m)) (jobs m)))"
    with sub have "b = length (heap m) \<or> b \<in> set (map snd (jobs m))"
      by blast
    moreover have "\<forall>c\<in>set (map snd (jobs m)). c < length (heap m)"
      using assms by (simp add: registry_ok_def list_all_iff)
    ultimately show "b < Suc (length (heap m))"
      by (auto simp: less_Suc_eq)
  qed
  then have "list_all (\<lambda>a. a < Suc (length (heap m)))
               (map snd (AList.update jobId (length (heap m)) (jobs m)))"
    by (simp only: list_all_iff)
  then show ?thesis
    using assms fresh
    by (simp add: registry_ok_def distinct_update distinct_update_values)
qed

lemma registry_ok_step:
  assumes "registry_ok (mgr s)"
  shows "registry_ok (mgr (step e s))"
proof (cases e)
  case (Create jobId tool ps now)
  then show ?thesis using assms by (simp add: registry_ok_createJob)
next
  case (Begin a now)
  then show ?thesis using assms by (simp add: registry_ok_def)
next
  case (Settle a settled t0 now)
  then show ?thesis using assms
    by (simp add: registry_ok_def)
next
  case ClearCompleted
  then show ?thesis using assms
    by (auto simp: registry_ok_def clearCompletedJobs_def distinct_map_filter list_all_iff)
next
  case Connect
  then show ?thesis using assms by (simp add: registry_ok_def)
next
  case (SetReadyState i n)
  then show ?thesis using assms by (simp add: registry_ok_def)
qed

lemma run_Nil [simp]: "run [] s = s"
  by (simp add: run_def)

lemma states_not_Nil [simp]: "states es s \<noteq> []"
  by (cases es) simp_all

lemma run_Cons [simp]: "run (e # es) s = run es (step e s)"
  by (simp add: run_def)

lemma registry_ok_run:
  "registry_ok (mgr s) \<Longrightarrow> registry_ok (mgr (run es s))"
  by (induction es arbitrary: s) (simp_all add: registry_ok_step)

lemma registry_ok_initial: "registry_ok (mgr initial_server)"
  by (simp add: registry_ok_def initial_server_def)

lemma map_of_value_mem:
  "map_of al k = Some v \<Longrightarrow> v \<in> set (map snd al)"
  by (induction al) (auto split: if_splits)

lemma map_of_key_mem:
  "map_of al k = Some v \<Longrightarrow> k \<in> fst ` set al"
  by (induction al) (auto split: if_splits)

lemma distinct_values_same_key:
  "distinct (map snd al) \<Longrightarrow> map_of al k = Some v \<Longrightarrow> map_of al k' = Some v \<Longrightarrow> k = k'"
proof (induction al)
  case Nil
  then show ?case by simp
next
  case (Cons p al)
  obtain k0 v0 where p: "p = (k0, v0)" by (cases p)
  from Cons.prems p have fresh: "v0 \<notin> set (map snd al)" by simp
  show ?case
  proof (cases "k = k0"; cases "k' = k0")
    assume "k = k0" "k' = k0"
    then show ?thesis by simp
  next
    assume "k = k0" "k' \<noteq> k0"
    with Cons.prems p have "v = v0" "map_of al k' = Some v" by simp_all
    with fresh map_of_value_mem [of al k' v] show ?thesis by simp
  next
    assume "k \<noteq> k0" "k' = k0"
    with Cons.prems p have "v = v0" "map_of al k = Some v" by simp_all
    with fresh map_of_value_mem [of al k v] show ?thesis by simp
  next
    assume "k \<noteq> k0" "k' \<noteq> k0"
    with Cons.prems p show ?thesis by (intro Cons.IH) simp_all
  qed
qed

lemma getJob_createJob:
  "getJob (snd (createJob jobId tool ps now m)) jobId = Some (new_job jobId tool ps now)"
  by (simp add: getJob_def getJobRef_def update_conv')

text \<open>
  C10. In every state the server can reach, a call of \<^verbatim>\<open>startJob\<close> with an id that the
  registry already holds returns a reference to a new object, which \<^verbatim>\<open>this.jobs.set\<close> stores
  under that id as the pending job of the object literal; afterwards the id leads to the new
  object, no id leads to the old one, the list of all jobs does not hold it and is as long as
  before, every other id leads where it led, and the old object itself is untouched.
  \<^verbatim>\<open>startJob\<close> has no failing path: it returns a reference for every input.
\<close>

theorem startJob_replaces_existing:
  assumes "getJobRef (mgr (run es initial_server)) jobId = Some old"
  shows "fst (startJob jobId tool ps now (mgr (run es initial_server))) \<noteq> old
    \<and> getJob (snd (createJob jobId tool ps now (mgr (run es initial_server)))) jobId
        = Some (new_job jobId tool ps now)
    \<and> getJobRef (snd (startJob jobId tool ps now (mgr (run es initial_server)))) jobId
        = Some (fst (startJob jobId tool ps now (mgr (run es initial_server))))
    \<and> (\<forall>k. getJobRef (snd (startJob jobId tool ps now (mgr (run es initial_server)))) k \<noteq> Some old)
    \<and> old \<notin> set (getAllJobRefs (snd (startJob jobId tool ps now (mgr (run es initial_server)))))
    \<and> length (getAllJobs (snd (startJob jobId tool ps now (mgr (run es initial_server)))))
        = length (getAllJobs (mgr (run es initial_server)))
    \<and> (\<forall>k. k \<noteq> jobId \<longrightarrow>
          getJobRef (snd (startJob jobId tool ps now (mgr (run es initial_server)))) k
            = getJobRef (mgr (run es initial_server)) k)
    \<and> heap (snd (startJob jobId tool ps now (mgr (run es initial_server)))) ! old
        = heap (mgr (run es initial_server)) ! old"
proof -
  define m where "m = mgr (run es initial_server)"
  define m' where "m' = snd (startJob jobId tool ps now m)"
  have ok: "registry_ok m"
    unfolding m_def by (rule registry_ok_run) (rule registry_ok_initial)
  have old: "map_of (jobs m) jobId = Some old"
    using assms by (simp add: getJobRef_def m_def)
  have old_mem: "old \<in> set (map snd (jobs m))"
    using old by (rule map_of_value_mem)
  then have old_less: "old < length (heap m)"
    using ok by (auto simp: registry_ok_def list_all_iff)
  then have fresh: "length (heap m) \<noteq> old"
    by simp
  have jobs': "jobs m' = AList.update jobId (length (heap m)) (jobs m)"
    by (simp add: m'_def)
  have 1: "fst (startJob jobId tool ps now m) \<noteq> old"
    using fresh by simp
  have 3: "getJobRef m' jobId = Some (fst (startJob jobId tool ps now m))"
    by (simp add: getJobRef_def jobs' update_conv')
  have 4: "getJobRef m' k \<noteq> Some old" for k
  proof
    assume k: "getJobRef m' k = Some old"
    then have "k \<noteq> jobId"
      using fresh by (auto simp: getJobRef_def jobs' update_conv')
    with k have "map_of (jobs m) k = Some old"
      by (simp add: getJobRef_def jobs' update_conv')
    with ok old have "k = jobId"
      by (auto simp: registry_ok_def intro: distinct_values_same_key)
    with \<open>k \<noteq> jobId\<close> show False by simp
  qed
  have 5: "old \<notin> set (getAllJobRefs m')"
    unfolding getAllJobRefs_def jobs'
    using ok old fresh by (intro update_drops_old_value) (simp_all add: registry_ok_def)
  have 6: "length (getAllJobs m') = length (getAllJobs m)"
    using map_of_key_mem [OF old]
    by (simp add: getAllJobs_def getAllJobRefs_def jobs' update_existing_length)
  have 7: "k \<noteq> jobId \<longrightarrow> getJobRef m' k = getJobRef m k" for k
    by (simp add: getJobRef_def jobs' update_conv')
  have 8: "heap m' ! old = heap m ! old"
    unfolding m'_def using old_less by (rule startJob_heap_old)
  from 1 3 4 5 6 7 8 getJob_createJob [of jobId tool ps now m]
  show ?thesis
    unfolding m'_def m_def by blast
qed

theorem startJob_replaces_existing_witness:
  "getJobRef (mgr (run [Create ''j'' ''toolA'' [] 0, Begin 0 0] initial_server)) ''j'' = Some 0
   \<and> getJobRef (snd (startJob ''j'' ''toolB'' [] 5
        (mgr (run [Create ''j'' ''toolA'' [] 0, Begin 0 0] initial_server)))) ''j'' = Some 1
   \<and> 0 \<notin> set (getAllJobRefs (snd (startJob ''j'' ''toolB'' [] 5
        (mgr (run [Create ''j'' ''toolA'' [] 0, Begin 0 0] initial_server)))))"
proof -
  have h: "getJobRef (mgr (run [Create ''j'' ''toolA'' [] 0, Begin 0 0] initial_server)) ''j'' = Some 0"
    by (simp add: initial_server_def getJobRef_def)
  have s: "fst (startJob ''j'' ''toolB'' [] 5
        (mgr (run [Create ''j'' ''toolA'' [] 0, Begin 0 0] initial_server))) = 1"
    by (simp add: initial_server_def)
  show ?thesis
    using h s startJob_replaces_existing [OF h, of "''toolB''" "[]" 5] by simp
qed

section \<open>Properties of the tool executor\<close>

lemma catalog_keys: "map fst toolScriptMap = getAvailableTools"
  by (simp add: toolScriptMap_def getAvailableTools_def)

lemma script_lookup_Absent:
  "script_lookup tool = Absent
     \<longleftrightarrow> tool \<notin> set getAvailableTools \<and> tool \<notin> set object_prototype_members"
proof -
  have "map_of toolScriptMap tool = None \<longleftrightarrow> tool \<notin> set getAvailableTools"
    unfolding catalog_keys [symmetric] by (simp add: map_of_eq_None_iff)
  then show ?thesis
    by (auto simp: script_lookup_def split: option.splits)
qed

lemma executeTool_never_rejects:
  "settlement (executeTool h cfg tool ps t0 t1) \<noteq> Some (Inl e)"
  by (simp add: executeTool_def Let_def split: option.splits sum.splits)

lemma executeTool_settles:
  "settlement (executeTool h cfg tool ps t0 t1) = None
     \<longleftrightarrow> settlement (executeIntegratedTool h cfg tool ps t0 t1) = None"
  by (simp add: executeTool_def Let_def split: option.splits sum.splits)

lemma executeTool_on_rejection:
  assumes "settlement (executeIntegratedTool h cfg tool ps t0 t1) = Some (Inl e)"
  shows "settlement (executeTool h cfg tool ps t0 t1)
    = Some (Inr \<lparr>success = False,
                 tool_result = Failure
                   \<lparr>failure_status = ''failed'', failure_zkProofGenerated = False,
                    failure_timestamp = t1, failure_error = error_message e,
                    failure_executionMode = ''integrated-server-direct-only''\<rparr>,
                 executionTime = show_int (t1 - t0) @ ''ms''\<rparr>)"
  using assms by (simp add: executeTool_def Let_def)

lemma executeTool_unknown:
  assumes "tool \<notin> set getAvailableTools" and "tool \<notin> set object_prototype_members"
  shows "settlement (executeTool h cfg tool ps t0 t1)
    = Some (Inr \<lparr>success = False,
                 tool_result = Failure
                   \<lparr>failure_status = ''failed'', failure_zkProofGenerated = False,
                    failure_timestamp = t1,
                    failure_error = ''Unknown tool: '' @ tool @ ''. Available tools: ''
                      @ join '', '' getAvailableTools,
                    failure_executionMode = ''integrated-server-direct-only''\<rparr>,
                 executionTime = show_int (t1 - t0) @ ''ms''\<rparr>)"
proof -
  have "script_lookup tool = Absent"
    using assms by (simp add: script_lookup_Absent)
  then have "settlement (executeIntegratedTool h cfg tool ps t0 t1)
    = Some (Inl (Error (''Unknown tool: '' @ tool @ ''. Available tools: ''
        @ join '', '' getAvailableTools)))"
    by (simp add: executeIntegratedTool_def rejected_def catalog_keys)
  then show ?thesis
    by (simp add: executeTool_on_rejection)
qed

lemma gleif_lookup:
  "script_lookup ''get-GLEIF-verification-with-sign''
     = ScriptFile ''GLEIFOptimMultiCompanyVerificationTestWithSign.js''"
  by (simp add: script_lookup_def toolScriptMap_def)

lemma gleif_direct:
  "direct_function ''get-GLEIF-verification-with-sign''
     = Some (''executeGLEIFVerificationDirect'', False)"
  by (simp add: direct_function_def)

lemma executeDirectly_gleif:
  "executeDirectly (gleif_host f) cfg path ps ''get-GLEIF-verification-with-sign'' t0 t1
   = (let inv = f ps;
          c1 = console_lines (logged inv) (initial_capture ''get-GLEIF-verification-with-sign'')
      in case finish inv of
           NeverReturns \<Rightarrow>
             \<lparr>settlement = None, broadcasts = updates c1, uncaught = [timeout_error cfg]\<rparr>
         | Throws e \<Rightarrow> direct_failed cfg e c1
         | Returns v \<Rightarrow>
             \<lparr>settlement = Some (Inr (build_response v c1 t0 t1)),
              broadcasts = updates c1 @
                [ExecutionCompleted v (capturedBeforeState c1) (capturedAfterState c1)],
              uncaught = (if elapsed inv < timeout cfg then [] else [timeout_error cfg])\<rparr>)"
  by (simp add: executeDirectly_def gleif_host_def gleif_direct Let_def)

lemma executeIntegratedTool_gleif:
  "executeIntegratedTool (gleif_host f) cfg ''get-GLEIF-verification-with-sign'' ps t0 t1
   = executeDirectly (gleif_host f) cfg
       (example_join (stdioPath cfg) (stdioBuildPath cfg)
          ''GLEIFOptimMultiCompanyVerificationTestWithSign.js'')
       ps ''get-GLEIF-verification-with-sign'' t0 t1"
  by (simp add: executeIntegratedTool_def gleif_lookup executeCompiledScript_def Let_def
      gleif_host_def)

lemma executeTool_hanging:
  "executeTool (gleif_host hanging) cfg ''get-GLEIF-verification-with-sign'' ps t0 t1
   = \<lparr>settlement = None,
      broadcasts = [ExecutionStarted ''get-GLEIF-verification-with-sign''],
      uncaught = [timeout_error cfg]\<rparr>"
  by (simp add: executeTool_def executeIntegratedTool_gleif executeDirectly_gleif hanging_def
      initial_capture_def Let_def)

lemma executeTool_unbuilt:
  "settlement (executeTool unbuilt_host cfg ''get-GLEIF-verification-with-sign'' ps t0 t1)
   = Some (Inr \<lparr>success = False,
                tool_result = Failure
                  \<lparr>failure_status = ''failed'', failure_zkProofGenerated = False,
                   failure_timestamp = t1,
                   failure_error = ''Compiled JavaScript file not found: ''
                     @ example_join (stdioPath cfg) (stdioBuildPath cfg)
                         ''GLEIFOptimMultiCompanyVerificationTestWithSign.js''
                     @ ''. Please run 'npm run build' first.'',
                   failure_executionMode = ''integrated-server-direct-only''\<rparr>,
                executionTime = show_int (t1 - t0) @ ''ms''\<rparr>)"
  by (simp add: executeTool_def executeIntegratedTool_def gleif_lookup executeCompiledScript_def
      unbuilt_host_def rejected_def Let_def)

lemma executeTool_throwing:
  "settlement (executeTool (gleif_host throwing) cfg ''get-GLEIF-verification-with-sign'' ps t0 t1)
   = Some (Inr \<lparr>success = False,
                tool_result = Failure
                  \<lparr>failure_status = ''failed'', failure_zkProofGenerated = False,
                   failure_timestamp = t1, failure_error = ''GLEIF API unreachable'',
                   failure_executionMode = ''integrated-server-direct-only''\<rparr>,
                executionTime = show_int (t1 - t0) @ ''ms''\<rparr>)"
  by (simp add: executeTool_def executeIntegratedTool_gleif executeDirectly_gleif throwing_def
      direct_failed_def Let_def)

section \<open>The driving task with the executor in place\<close>

lemma show_nat_small: "n < 10 \<Longrightarrow> show_nat n = [digit_char n]"
  by (simp add: show_nat.simps)

lemma show_nat_large: "\<not> n < 10 \<Longrightarrow> show_nat n = show_nat (n div 10) @ [digit_char n]"
  by (subst show_nat.simps) simp

lemma processJob_await_completes:
  assumes "processJob_await h cfg a t0 t1 m = Some m'" and "a < length (heap m)"
  shows "status (heap m' ! a) = Completed \<and> error (heap m' ! a) = error (heap m ! a)
    \<and> endTime (heap m' ! a) = Some t1"
proof -
  obtain settled where s: "settlement (executeTool h cfg (toolName (heap m ! a))
      (parameters (heap m ! a)) t0 t1) = Some settled"
    and m': "m' = processJob_resume a settled t0 t1 m"
    using assms(1) by (auto simp: processJob_await_def split: option.splits)
  from s obtain r where "settled = Inr r"
    using executeTool_never_rejects [of h cfg "toolName (heap m ! a)" "parameters (heap m ! a)" t0 t1]
    by (cases settled) auto
  with m' assms(2) show ?thesis
    by (simp add: heap_processJob_resume)
qed

lemma startJob_record:
  "heap (snd (startJob jobId tool ps now m)) ! fst (startJob jobId tool ps now m)
     = (new_job jobId tool ps now)\<lparr>status := Running, progress := Some 10\<rparr>"
  by (simp add: startJob_heap_new)

lemma startJob_clients:
  "clients (snd (startJob jobId tool ps now m))
   = send_to_open
       (JobUpdate (job_update_of ((new_job jobId tool ps now)\<lparr>status := Running, progress := Some 10\<rparr>) now))
       (send_to_open
          (JobUpdate (job_update_of ((new_job jobId tool ps now)\<lparr>status := Running, progress := Some 0\<rparr>) now))
          (send_to_open (JobUpdate (job_update_of (new_job jobId tool ps now) now)) (clients m)))"
  by (simp add: startJob_def split_beta clients_processJob_begin clients_createJob)

lemma empty_manager_fields [simp]:
  "heap empty_manager = []" "jobs empty_manager = []" "clients empty_manager = []"
  by (simp_all add: empty_manager_def)

lemma one_subscriber_fields [simp]:
  "heap one_subscriber = []" "jobs one_subscriber = []"
  "clients one_subscriber = [\<lparr>readyState = 1, sent = []\<rparr>]"
  by (simp_all add: one_subscriber_def)

text \<open>
  C9. \<^verbatim>\<open>executeTool\<close> on the tool \<^verbatim>\<open>get-GLEIF-verification-with-sign\<close>, its script built,
  with a direct function whose promise never settles: the promise of \<^verbatim>\<open>executeTool\<close> never
  settles either, so it does not resolve to a record. The error of the timer is thrown
  outside the promise. (Whenever the inner call settles, \<^verbatim>\<open>executeTool\<close> resolves and
  never rejects: lemmas \<open>executeTool_never_rejects\<close>, \<open>executeTool_settles\<close> and
  \<open>executeTool_on_rejection\<close>.)
\<close>

theorem executeTool_never_resolves:
  "settlement (executeTool (gleif_host hanging) example_config
      ''get-GLEIF-verification-with-sign'' [] 0 t1) = None
   \<and> uncaught (executeTool (gleif_host hanging) example_config
      ''get-GLEIF-verification-with-sign'' [] 0 t1)
     = [Error ''Direct execution timeout after 1800000ms'']"
proof -
  have "show_nat 1800000 = ''1800000''"
    by (simp add: show_nat_small show_nat_large digit_char_def)
  then show ?thesis
    by (simp add: executeTool_hanging timeout_error_def example_config_def)
qed

text \<open>
  C3. A job for a direct function that never returns: \<^verbatim>\<open>startJob\<close> leaves it running, and at
  no time \<open>t1\<close>, before or after the configured timeout, does its driving task resume. The
  job stays \<^verbatim>\<open>running\<close> without an error and is never finalized.
\<close>

theorem timeout_leaves_job_running:
  "processJob_await (gleif_host hanging) example_config 0 0 t1
      (snd (startJob ''job-1'' ''get-GLEIF-verification-with-sign'' [] 0 empty_manager)) = None
   \<and> getJob (snd (startJob ''job-1'' ''get-GLEIF-verification-with-sign'' [] 0 empty_manager)) ''job-1''
     = Some \<lparr>job_id = ''job-1'', toolName = ''get-GLEIF-verification-with-sign'', parameters = [],
             status = Running, startTime = 0, endTime = None, result = None, error = None,
             progress = Some 10\<rparr>"
proof -
  have rec: "heap (snd (startJob ''job-1'' ''get-GLEIF-verification-with-sign'' [] 0 empty_manager)) ! 0
    = (new_job ''job-1'' ''get-GLEIF-verification-with-sign'' [] 0)\<lparr>status := Running, progress := Some 10\<rparr>"
    using startJob_record [of "''job-1''" "''get-GLEIF-verification-with-sign''" "[]" 0 empty_manager]
    by simp
  show ?thesis
    by (simp add: processJob_await_def rec new_job_def executeTool_hanging getJob_def
        getJobRef_def)
qed

text \<open>
  C1. A job for the GLEIF tool on a host where the compiled script is missing, and a job whose
  direct function throws: in both the driving task resumes in the \<^verbatim>\<open>try\<close> block, since
  \<^verbatim>\<open>executeTool\<close> has resolved, and finalizes the job as \<^verbatim>\<open>completed\<close> with progress 100;
  \<^verbatim>\<open>Job.error\<close> stays absent, the failure is found only inside \<^verbatim>\<open>Job.result\<close>, and the
  frame published last carries the status \<^verbatim>\<open>completed\<close>.
\<close>

theorem failed_tool_completes_job:
  "map_option
     (\<lambda>m. (status (heap m ! 0), error (heap m ! 0), endTime (heap m ! 0), progress (heap m ! 0),
           map_option (\<lambda>r. success (spread r)) (result (heap m ! 0)),
           job_updates (sent (hd (clients m)))))
     (processJob_await unbuilt_host example_config 0 0 7
        (snd (startJob ''job-1'' ''get-GLEIF-verification-with-sign'' [] 0 one_subscriber)))
   = Some (Completed, None, Some 7, Some 100, Some False,
           [(Pending, None), (Running, Some 0), (Running, Some 10), (Completed, Some 100)])
   \<and> map_option
     (\<lambda>m. (status (heap m ! 0), error (heap m ! 0), endTime (heap m ! 0), progress (heap m ! 0),
           map_option (\<lambda>r. tool_result (spread r)) (result (heap m ! 0))))
     (processJob_await (gleif_host throwing) example_config 0 0 7
        (snd (startJob ''job-1'' ''get-GLEIF-verification-with-sign'' [] 0 one_subscriber)))
   = Some (Completed, None, Some 7, Some 100,
           Some (Failure \<lparr>failure_status = ''failed'', failure_zkProofGenerated = False,
                          failure_timestamp = 7, failure_error = ''GLEIF API unreachable'',
                          failure_executionMode = ''integrated-server-direct-only''\<rparr>))"
proof -
  let ?m = "snd (startJob ''job-1'' ''get-GLEIF-verification-with-sign'' [] 0 one_subscriber)"
  have len: "0 < length (heap ?m)"
    by simp
  have rec: "heap ?m ! 0
    = (new_job ''job-1'' ''get-GLEIF-verification-with-sign'' [] 0)\<lparr>status := Running, progress := Some 10\<rparr>"
    using startJob_record [of "''job-1''" "''get-GLEIF-verification-with-sign''" "[]" 0 one_subscriber]
    by simp
  have cl: "clients ?m
    = [\<lparr>readyState = 1,
         sent = [JobUpdate (job_update_of (new_job ''job-1'' ''get-GLEIF-verification-with-sign'' [] 0) 0),
                 JobUpdate (job_update_of ((new_job ''job-1'' ''get-GLEIF-verification-with-sign'' [] 0)
                    \<lparr>status := Running, progress := Some 0\<rparr>) 0),
                 JobUpdate (job_update_of ((new_job ''job-1'' ''get-GLEIF-verification-with-sign'' [] 0)
                    \<lparr>status := Running, progress := Some 10\<rparr>) 0)]\<rparr>]"
    by (simp add: startJob_clients send_to_open_def send_def)
  show ?thesis
    using len
    by (simp add: processJob_await_def rec new_job_def executeTool_unbuilt executeTool_throwing
        heap_processJob_resume clients_processJob_resume cl send_to_open_def send_def
        job_update_of_def)
qed

section \<open>Starting a job\<close>

text \<open>
  C2, as the claim states it, fails: \<^verbatim>\<open>startJob\<close> for the unknown tool
  \<^verbatim>\<open>does-not-exist\<close> returns a reference and leaves the job in the registry, and
  \<^verbatim>\<open>executeTool\<close> does not reject but resolves.
\<close>

theorem unknown_tool_job_is_registered:
  "fst (startJob ''job-1'' ''does-not-exist'' [] 0 empty_manager) = 0
   \<and> getJob (snd (startJob ''job-1'' ''does-not-exist'' [] 0 empty_manager)) ''job-1''
     = Some \<lparr>job_id = ''job-1'', toolName = ''does-not-exist'', parameters = [],
             status = Running, startTime = 0, endTime = None, result = None, error = None,
             progress = Some 10\<rparr>
   \<and> map_option (map_sum error_message success)
       (settlement (executeTool unbuilt_host example_config ''does-not-exist'' [] 0 1))
     = Some (Inr False)"
proof -
  have rec: "heap (snd (startJob ''job-1'' ''does-not-exist'' [] 0 empty_manager)) ! 0
    = (new_job ''job-1'' ''does-not-exist'' [] 0)\<lparr>status := Running, progress := Some 10\<rparr>"
    using startJob_record [of "''job-1''" "''does-not-exist''" "[]" 0 empty_manager]
    by simp
  have "''does-not-exist'' \<notin> set getAvailableTools"
    by (simp add: getAvailableTools_def)
  moreover have "''does-not-exist'' \<notin> set object_prototype_members"
    by (simp add: object_prototype_members_def)
  ultimately have "map_option (map_sum error_message success)
       (settlement (executeTool unbuilt_host example_config ''does-not-exist'' [] 0 1))
     = Some (Inr False)"
    by (simp add: executeTool_unknown)
  then show ?thesis
    by (simp add: rec new_job_def getJob_def getJobRef_def)
qed

text \<open>
  C2, amended. For every tool name that is neither in the catalog nor the name of a member of
  \<^verbatim>\<open>Object.prototype\<close>, \<^verbatim>\<open>executeTool\<close> resolves with \<^verbatim>\<open>success\<close> false and a failure
  result whose message is \<^verbatim>\<open>Unknown tool: \<close> and the name, followed by
  \<^verbatim>\<open>. Available tools: \<close> and all catalog names in order, separated by a comma and a
  space; it does not reject. \<^verbatim>\<open>startJob\<close> makes no catalog check: it returns a reference
  to a job with that tool name, and the registry holds the job under the given id.
\<close>

theorem unknown_tool_resolves_with_catalog:
  assumes "tool \<notin> set getAvailableTools" and "tool \<notin> set object_prototype_members"
  shows "settlement (executeTool h cfg tool ps t0 t1)
      = Some (Inr \<lparr>success = False,
                   tool_result = Failure
                     \<lparr>failure_status = ''failed'', failure_zkProofGenerated = False,
                      failure_timestamp = t1,
                      failure_error = ''Unknown tool: '' @ tool @ ''. Available tools: ''
                        @ join '', '' getAvailableTools,
                      failure_executionMode = ''integrated-server-direct-only''\<rparr>,
                   executionTime = show_int (t1 - t0) @ ''ms''\<rparr>)
    \<and> getJobRef (snd (startJob jobId tool ps now m)) jobId
        = Some (fst (startJob jobId tool ps now m))
    \<and> toolName (heap (snd (startJob jobId tool ps now m)) ! fst (startJob jobId tool ps now m))
        = tool"
  using assms
  by (simp add: executeTool_unknown getJobRef_def update_conv' startJob_heap_new new_job_def)

theorem unknown_tool_resolves_with_catalog_witness:
  "''does-not-exist'' \<notin> set getAvailableTools
   \<and> ''does-not-exist'' \<notin> set object_prototype_members
   \<and> map_option (map_sum error_message (take 45 \<circ> failure_text \<circ> tool_result))
        (settlement (executeTool unbuilt_host example_config ''does-not-exist'' [] 0 1))
      = Some (Inr ''Unknown tool: does-not-exist. Available tools'')
   \<and> getJobRef (snd (startJob ''job-1'' ''does-not-exist'' [] 0 empty_manager)) ''job-1''
      = Some 0"
proof -
  have a: "''does-not-exist'' \<notin> set getAvailableTools"
    by (simp add: getAvailableTools_def)
  have b: "''does-not-exist'' \<notin> set object_prototype_members"
    by (simp add: object_prototype_members_def)
  show ?thesis
    using a b
      unknown_tool_resolves_with_catalog [OF a b, of unbuilt_host example_config "[]" 0 1
        "''job-1''" 0 empty_manager]
    by (simp add: failure_text_def)
qed

text \<open>
  C5, as the claim states it, fails: the job that \<^verbatim>\<open>startJob\<close> has returned for
  \<^verbatim>\<open>toolA\<close> and the parameter \<^verbatim>\<open>x = 1\<close> is running, not pending.
\<close>

theorem returned_job_is_not_pending:
  "status (heap (snd (startJob ''job-1'' ''toolA'' [(''x'', ''1'')] 0 empty_manager))
      ! fst (startJob ''job-1'' ''toolA'' [(''x'', ''1'')] 0 empty_manager)) = Running
   \<and> status (heap (snd (startJob ''job-1'' ''toolA'' [(''x'', ''1'')] 0 empty_manager))
      ! fst (startJob ''job-1'' ''toolA'' [(''x'', ''1'')] 0 empty_manager)) \<noteq> Pending"
  using startJob_record [of "''job-1''" "''toolA''" "[(''x'', ''1'')]" 0 empty_manager]
  by (simp add: new_job_def)

lemma job_updates_append: "job_updates (fs @ gs) = job_updates fs @ job_updates gs"
  by (induction fs rule: job_updates.induct) simp_all

lemma job_updates_send_to_open:
  "i < length cs \<Longrightarrow>
   job_updates (sent (send_to_open (JobUpdate u) cs ! i))
     = job_updates (sent (cs ! i))
       @ (if readyState (cs ! i) = 1 then [(update_status u, update_progress u)] else [])"
  by (simp add: nth_send_to_open send_def job_updates_append)

lemma readyState_nth_send_to_open [simp]:
  "i < length cs \<Longrightarrow> readyState (send_to_open f cs ! i) = readyState (cs ! i)"
  by (simp add: nth_send_to_open send_def)

text \<open>
  C5, amended. \<^verbatim>\<open>startJob\<close> stores the job under its id and publishes it once as pending;
  the driving task then runs to its \<^verbatim>\<open>await\<close> inside the call, so that the job returned to
  the caller is the object literal with status \<^verbatim>\<open>running\<close> and progress 10, without end
  time, result or error, after two more publishes: among the frames of \<^verbatim>\<open>job_update\<close> of
  every open socket the call has added pending, then running with progress 0, then running
  with progress 10, and it has added none to any other socket. \<^verbatim>\<open>startJob\<close> returns without
  the outcome of the tool: it has returned this job also when the direct function never
  returns and the driving task never resumes.
\<close>

theorem startJob_returns_running_job:
  "heap (snd (startJob jobId tool ps now m)) ! fst (startJob jobId tool ps now m)
     = \<lparr>job_id = jobId, toolName = tool, parameters = ps, status = Running, startTime = now,
        endTime = None, result = None, error = None, progress = Some 10\<rparr>
   \<and> getJobRef (snd (startJob jobId tool ps now m)) jobId
       = Some (fst (startJob jobId tool ps now m))
   \<and> length (clients (snd (startJob jobId tool ps now m))) = length (clients m)
   \<and> (\<forall>i<length (clients m).
         job_updates (sent (clients (snd (startJob jobId tool ps now m)) ! i))
           = job_updates (sent (clients m ! i))
             @ (if readyState (clients m ! i) = 1
                then [(Pending, None), (Running, Some 0), (Running, Some 10)]
                else []))
   \<and> processJob_await (gleif_host hanging) cfg
        (fst (startJob jobId ''get-GLEIF-verification-with-sign'' ps now m)) t0 t1
        (snd (startJob jobId ''get-GLEIF-verification-with-sign'' ps now m)) = None"
  by (simp add: startJob_heap_new new_job_def getJobRef_def update_conv' startJob_clients
      job_update_of_def processJob_await_def executeTool_hanging job_updates_send_to_open)

theorem startJob_returns_running_job_witness:
  "job_updates (sent (clients (snd (startJob ''job-1'' ''toolA'' [(''x'', ''1'')] 0
      \<lparr>heap = [], jobs = [],
        clients = [\<lparr>readyState = 3, sent = []\<rparr>, \<lparr>readyState = 1, sent = []\<rparr>]\<rparr>)) ! 1))
     = [(Pending, None), (Running, Some 0), (Running, Some 10)]
   \<and> job_updates (sent (clients (snd (startJob ''job-1'' ''toolA'' [(''x'', ''1'')] 0
      \<lparr>heap = [], jobs = [],
        clients = [\<lparr>readyState = 3, sent = []\<rparr>, \<lparr>readyState = 1, sent = []\<rparr>]\<rparr>)) ! 0))
     = []"
  using startJob_returns_running_job [of "''job-1''" "''toolA''" "[(''x'', ''1'')]" 0
      "\<lparr>heap = [], jobs = [],
        clients = [\<lparr>readyState = 3, sent = []\<rparr>, \<lparr>readyState = 1, sent = []\<rparr>]\<rparr>"]
  by simp

section \<open>What a driven job publishes\<close>

text \<open>
  C8, as the claim states it, fails: for a job started while one socket is open, that socket
  is handed three frames before the tool has run, and two of them carry the status
  \<^verbatim>\<open>running\<close>, the job having changed its status to \<^verbatim>\<open>running\<close> once.
\<close>

theorem running_is_published_twice:
  "job_updates (sent (hd (clients (snd (startJob ''job-1'' ''toolA'' [] 0 one_subscriber)))))
     = [(Pending, None), (Running, Some 0), (Running, Some 10)]
   \<and> count_list
        (map fst (job_updates (sent (hd (clients (snd (startJob ''job-1'' ''toolA'' [] 0 one_subscriber)))))))
        Running = 2"
  by (simp add: startJob_clients send_to_open_def send_def job_update_of_def new_job_def)

text \<open>
  C8, amended. Each piece of the life of a job ends with a publish of the record as it then
  is: the creation publishes the pending record once; the driving task, once it has set the
  status \<^verbatim>\<open>running\<close>, publishes the record with progress 0 and then, the status unchanged,
  once more with progress 10; the resumed task publishes the final record once, with status
  \<^verbatim>\<open>completed\<close> when the awaited promise resolved and \<^verbatim>\<open>failed\<close> when it rejected. Every
  status is thus published right after it is set, and a job driven to its end has four
  publishes for its three changes of status.
\<close>

theorem every_status_is_published:
  "clients (snd (createJob jobId tool ps now m))
     = send_to_open (JobUpdate (job_update_of (new_job jobId tool ps now) now)) (clients m)
   \<and> status (new_job jobId tool ps now) = Pending
   \<and> (a < length (heap m) \<longrightarrow>
        clients (processJob_begin a now m)
          = send_to_open
              (JobUpdate (job_update_of ((heap m ! a)\<lparr>status := Running, progress := Some 10\<rparr>) now))
              (send_to_open
                 (JobUpdate (job_update_of ((heap m ! a)\<lparr>status := Running, progress := Some 0\<rparr>) now))
                 (clients m)))
   \<and> (a < length (heap m) \<longrightarrow>
        clients (processJob_resume a settled t0 now m)
          = send_to_open (JobUpdate (job_update_of (finished_job settled t0 now (heap m ! a)) now))
              (clients m)
        \<and> heap (processJob_resume a settled t0 now m) ! a = finished_job settled t0 now (heap m ! a))
   \<and> status (finished_job (Inr r) t0 now job) = Completed
   \<and> status (finished_job (Inl e) t0 now job) = Failed"
  by (simp add: clients_createJob clients_processJob_begin clients_processJob_resume
      heap_processJob_resume new_job_def)

theorem every_status_is_published_witness:
  "0 < length (heap (snd (startJob ''job-1'' ''toolA'' [] 0 one_subscriber)))
   \<and> job_updates (sent (hd (clients
        (processJob_resume 0 (Inl (Error ''boom'')) 0 5
           (snd (startJob ''job-1'' ''toolA'' [] 0 one_subscriber))))))
     = [(Pending, None), (Running, Some 0), (Running, Some 10), (Failed, Some 10)]"
proof -
  let ?m = "snd (startJob ''job-1'' ''toolA'' [] 0 one_subscriber)"
  have len: "0 < length (heap ?m)"
    by simp
  have rec: "heap ?m ! 0 = (new_job ''job-1'' ''toolA'' [] 0)\<lparr>status := Running, progress := Some 10\<rparr>"
    using startJob_record [of "''job-1''" "''toolA''" "[]" 0 one_subscriber] by simp
  have "clients (processJob_resume 0 (Inl (Error ''boom'')) 0 5 ?m)
      = send_to_open (JobUpdate (job_update_of (finished_job (Inl (Error ''boom'')) 0 5 (heap ?m ! 0)) 5))
          (clients ?m)"
    using every_status_is_published [of "''job-1''" "''toolA''" "[]" 5 ?m 0 "Inl (Error ''boom'')" 0]
      len
    by simp
  then show ?thesis
    using len
    by (simp add: rec startJob_clients send_to_open_def send_def job_update_of_def new_job_def)
qed

section \<open>The life of a job along a run\<close>

lemma consistent_endTime:
  "consistent t job \<Longrightarrow> (endTime job \<noteq> None) = terminal (status job)"
  by (cases t) (auto simp: terminal_def)

lemma consistent_terminal:
  "consistent t job \<Longrightarrow> terminal (status job) \<Longrightarrow> t = Finished"
  by (cases t) (auto simp: terminal_def)

lemma consistent_finished_job [simp]: "consistent Finished (finished_job settled t0 now job)"
  by (cases settled) (simp_all add: terminal_def)

lemma tasks_ok_length: "tasks_ok s \<Longrightarrow> length (tasks s) = length (heap (mgr s))"
  by (simp add: tasks_ok_def list_all2_lengthD)

lemma tasks_ok_nth:
  "tasks_ok s \<Longrightarrow> a < length (heap (mgr s)) \<Longrightarrow> consistent (tasks s ! a) (heap (mgr s) ! a)"
  by (simp add: tasks_ok_def list_all2_conv_all_nth)

lemma tasks_ok_step:
  assumes "tasks_ok s"
  shows "tasks_ok (step e s)"
proof (cases e)
  case (Create jobId tool ps now)
  then show ?thesis
    using assms by (simp add: tasks_ok_def list_all2_appendI new_job_def)
next
  case (Begin a now)
  show ?thesis
  proof (cases "a < length (tasks s) \<and> tasks s ! a = Created")
    case True
    then have a: "a < length (heap (mgr s))"
      using assms by (simp add: tasks_ok_length)
    with True assms have "consistent Created (heap (mgr s) ! a)"
      using tasks_ok_nth [of s a] by simp
    then have "consistent Awaiting ((heap (mgr s) ! a)\<lparr>status := Running, progress := Some 10\<rparr>)"
      by simp
    with assms a True Begin show ?thesis
      by (simp add: tasks_ok_def heap_processJob_begin list_all2_update_cong)
  next
    case False
    with Begin assms show ?thesis by auto
  qed
next
  case (Settle a settled t0 now)
  show ?thesis
  proof (cases "a < length (tasks s) \<and> tasks s ! a = Awaiting")
    case True
    then have a: "a < length (heap (mgr s))"
      using assms by (simp add: tasks_ok_length)
    have "list_all2 consistent ((tasks s)[a := Finished])
            ((heap (mgr s))[a := finished_job settled t0 now (heap (mgr s) ! a)])"
      using assms consistent_finished_job [of settled t0 now "heap (mgr s) ! a"]
      by (intro list_all2_update_cong) (simp_all add: tasks_ok_def)
    with a True Settle show ?thesis
      by (simp add: tasks_ok_def heap_processJob_resume)
  next
    case False
    with Settle assms show ?thesis by auto
  qed
next
  case ClearCompleted
  then show ?thesis using assms by (simp add: tasks_ok_def)
next
  case Connect
  then show ?thesis using assms by (simp add: tasks_ok_def)
next
  case (SetReadyState i n)
  then show ?thesis using assms by (simp add: tasks_ok_def)
qed

lemma tasks_ok_initial: "tasks_ok initial_server"
  by (simp add: tasks_ok_def initial_server_def)

lemma tasks_ok_states:
  "tasks_ok s \<Longrightarrow> s' \<in> set (states es s) \<Longrightarrow> tasks_ok s'"
proof (induction es arbitrary: s)
  case Nil
  then show ?case by simp
next
  case (Cons e es)
  from Cons.prems(2) have "s' = s \<or> s' \<in> set (states es (step e s))"
    by simp
  then show ?case
  proof
    assume "s' = s"
    with Cons.prems(1) show ?thesis by simp
  next
    assume "s' \<in> set (states es (step e s))"
    with tasks_ok_step [OF Cons.prems(1), of e] show ?thesis
      by (rule Cons.IH)
  qed
qed

lemma heap_grows: "length (heap (mgr s)) \<le> length (heap (mgr (step e s)))"
  by (cases e) simp_all

text \<open>What one event does to the record of an object that exists.\<close>

lemma step_record:
  assumes "tasks_ok s" and "a < length (heap (mgr s))"
  shows "heap (mgr (step e s)) ! a = heap (mgr s) ! a
    \<or> (tasks s ! a = Created \<and> status (heap (mgr (step e s)) ! a) = Running)
    \<or> (tasks s ! a = Awaiting \<and> terminal (status (heap (mgr (step e s)) ! a)))"
proof (cases e)
  case (Create jobId tool ps now)
  with assms(2) show ?thesis by (simp add: nth_append)
next
  case (Begin b now)
  show ?thesis
  proof (cases "b = a")
    case True
    with Begin assms show ?thesis
      by (auto simp: heap_processJob_begin)
  next
    case False
    with Begin show ?thesis
      by (auto simp: heap_processJob_begin_other)
  qed
next
  case (Settle b settled t0 now)
  show ?thesis
  proof (cases "b = a")
    case True
    have "terminal (status (finished_job settled t0 now job))" for job
      by (cases settled) (simp_all add: terminal_def)
    with True Settle assms show ?thesis
      by (auto simp: heap_processJob_resume)
  next
    case False
    have "heap (processJob_resume b settled t0 now (mgr s)) ! a = heap (mgr s) ! a"
      using False by (cases settled) (simp_all add: processJob_resume_def Let_def heap_assign_other)
    with Settle show ?thesis by auto
  qed
qed simp_all

lemma step_may_follow:
  assumes "tasks_ok s" and "a < length (heap (mgr s))"
  shows "may_follow (status (heap (mgr s) ! a)) (status (heap (mgr (step e s)) ! a))"
proof -
  from tasks_ok_nth [OF assms] have c: "consistent (tasks s ! a) (heap (mgr s) ! a)" .
  from step_record [OF assms, of e] show ?thesis
  proof (elim disjE conjE)
    assume "heap (mgr (step e s)) ! a = heap (mgr s) ! a"
    then show ?thesis by (simp add: may_follow_def)
  next
    assume "tasks s ! a = Created" "status (heap (mgr (step e s)) ! a) = Running"
    with c show ?thesis by (simp add: may_follow_def)
  next
    assume "tasks s ! a = Awaiting" "terminal (status (heap (mgr (step e s)) ! a))"
    with c show ?thesis by (simp add: may_follow_def)
  qed
qed

lemma step_keeps_terminal:
  assumes "tasks_ok s" and "a < length (heap (mgr s))"
    and "terminal (status (heap (mgr s) ! a))"
  shows "heap (mgr (step e s)) ! a = heap (mgr s) ! a"
proof -
  from tasks_ok_nth [OF assms(1,2)] assms(3) have "tasks s ! a = Finished"
    by (rule consistent_terminal)
  with step_record [OF assms(1,2), of e] show ?thesis by auto
qed

lemma status_history_Cons:
  "status_history a (s # ss)
     = (if a < length (heap (mgr s)) then status (heap (mgr s) ! a) # status_history a ss
        else status_history a ss)"
  by (simp add: status_history_def)

lemma status_history_Nil [simp]: "status_history a [] = []"
  by (simp add: status_history_def)

lemma history_of_existing:
  assumes "tasks_ok s" and "a < length (heap (mgr s))"
  shows "\<exists>ys. status_history a (states es s) = status (heap (mgr s) ! a) # ys
           \<and> chain (status (heap (mgr s) ! a) # ys)"
  using assms
proof (induction es arbitrary: s)
  case Nil
  then show ?case by (simp add: status_history_Cons)
next
  case (Cons e es)
  have ok': "tasks_ok (step e s)"
    using Cons.prems(1) by (rule tasks_ok_step)
  have a': "a < length (heap (mgr (step e s)))"
    using Cons.prems(2) heap_grows [of s e] by simp
  from Cons.IH [OF ok' a'] obtain ys where
    ys: "status_history a (states es (step e s)) = status (heap (mgr (step e s)) ! a) # ys"
    and ch: "chain (status (heap (mgr (step e s)) ! a) # ys)"
    by blast
  have "may_follow (status (heap (mgr s) ! a)) (status (heap (mgr (step e s)) ! a))"
    using Cons.prems by (rule step_may_follow)
  with ys ch Cons.prems(2) show ?case
    by (simp add: status_history_Cons)
qed

lemma created_is_pending:
  assumes "\<not> a < length (heap (mgr s))" and "a < length (heap (mgr (step e s)))"
  shows "status (heap (mgr (step e s)) ! a) = Pending"
proof (cases e)
  case (Create jobId tool ps now)
  with assms have "a = length (heap (mgr s))"
    by simp
  with Create show ?thesis
    by (simp add: new_job_def)
qed (use assms in \<open>simp_all split: if_splits\<close>)

lemma history_of_future:
  assumes "tasks_ok s" and "\<not> a < length (heap (mgr s))"
  shows "status_history a (states es s) = []
    \<or> (\<exists>ys. status_history a (states es s) = Pending # ys \<and> chain (Pending # ys))"
  using assms
proof (induction es arbitrary: s)
  case Nil
  then show ?case by (simp add: status_history_Cons)
next
  case (Cons e es)
  have ok': "tasks_ok (step e s)"
    using Cons.prems(1) by (rule tasks_ok_step)
  have eq: "status_history a (states (e # es) s) = status_history a (states es (step e s))"
    using Cons.prems(2) by (simp add: status_history_Cons)
  show ?case
  proof (cases "a < length (heap (mgr (step e s)))")
    case True
    from history_of_existing [OF ok' True, of es] created_is_pending [OF Cons.prems(2) True]
    show ?thesis
      unfolding eq by simp
  next
    case False
    from Cons.IH [OF ok' False] show ?thesis
      unfolding eq .
  qed
qed

lemma chain_paths:
  "chain (x # ys) \<Longrightarrow>
     (x = Pending \<longrightarrow> remdups_adj (x # ys) \<in> {[Pending], [Pending, Running],
          [Pending, Running, Completed], [Pending, Running, Failed]})
   \<and> (x = Running \<longrightarrow> remdups_adj (x # ys) \<in> {[Running], [Running, Completed], [Running, Failed]})
   \<and> (x = Completed \<longrightarrow> remdups_adj (x # ys) = [Completed])
   \<and> (x = Failed \<longrightarrow> remdups_adj (x # ys) = [Failed])"
proof (induction ys arbitrary: x)
  case Nil
  then show ?case by simp
next
  case (Cons y ys)
  from Cons.prems have mf: "may_follow x y" and ch: "chain (y # ys)"
    by simp_all
  note IH = Cons.IH [OF ch]
  show ?case
  proof (cases "x = y")
    case True
    with IH show ?thesis by simp
  next
    case False
    with mf have "(x = Pending \<and> y = Running) \<or> (x = Running \<and> (y = Completed \<or> y = Failed))"
      by (simp add: may_follow_def terminal_def)
    with IH False show ?thesis
      by (elim disjE conjE) auto
  qed
qed

lemma pending_chain_prefix:
  assumes "chain (Pending # ys)"
  shows "prefix (remdups_adj (Pending # ys)) [Pending, Running, Completed]
    \<or> prefix (remdups_adj (Pending # ys)) [Pending, Running, Failed]"
proof -
  from chain_paths [OF assms]
  have "remdups_adj (Pending # ys) \<in> {[Pending], [Pending, Running],
          [Pending, Running, Completed], [Pending, Running, Failed]}"
    by simp
  then show ?thesis
    by (auto simp del: remdups_adj.simps)
qed

text \<open>
  C6. Over every run of the server from its start and for every \<^verbatim>\<open>Job\<close> object, the values
  that its \<^verbatim>\<open>status\<close> takes from its creation, repetitions merged, form a prefix of pending,
  running, completed or of pending, running, failed. In every state of the run and for every
  object, \<^verbatim>\<open>endTime\<close> is set exactly when the status is completed or failed, and an object
  in such a status is left unchanged, in every field, by whatever happens next.
\<close>

theorem status_life_cycle:
  "(prefix (remdups_adj (status_history a (states es initial_server))) [Pending, Running, Completed]
     \<or> prefix (remdups_adj (status_history a (states es initial_server))) [Pending, Running, Failed])
   \<and> (\<forall>s\<in>set (states es initial_server). \<forall>b<length (heap (mgr s)).
         (endTime (heap (mgr s) ! b) \<noteq> None) = terminal (status (heap (mgr s) ! b))
         \<and> (terminal (status (heap (mgr s) ! b))
              \<longrightarrow> heap (mgr (step e s)) ! b = heap (mgr s) ! b))"
proof
  have "\<not> a < length (heap (mgr initial_server))"
    by (simp add: initial_server_def)
  from history_of_future [OF tasks_ok_initial this, of es]
  show "prefix (remdups_adj (status_history a (states es initial_server))) [Pending, Running, Completed]
     \<or> prefix (remdups_adj (status_history a (states es initial_server))) [Pending, Running, Failed]"
  proof
    assume "status_history a (states es initial_server) = []"
    then show ?thesis by simp
  next
    assume "\<exists>ys. status_history a (states es initial_server) = Pending # ys \<and> chain (Pending # ys)"
    then obtain ys where "status_history a (states es initial_server) = Pending # ys"
      and "chain (Pending # ys)" by blast
    then show ?thesis
      using pending_chain_prefix [of ys] by simp
  qed
next
  show "\<forall>s\<in>set (states es initial_server). \<forall>b<length (heap (mgr s)).
         (endTime (heap (mgr s) ! b) \<noteq> None) = terminal (status (heap (mgr s) ! b))
         \<and> (terminal (status (heap (mgr s) ! b))
              \<longrightarrow> heap (mgr (step e s)) ! b = heap (mgr s) ! b)"
  proof (intro ballI allI impI conjI)
    fix s b
    assume s: "s \<in> set (states es initial_server)" and b: "b < length (heap (mgr s))"
    have ok: "tasks_ok s"
      using tasks_ok_initial s by (rule tasks_ok_states)
    from tasks_ok_nth [OF ok b]
    show "(endTime (heap (mgr s) ! b) \<noteq> None) = terminal (status (heap (mgr s) ! b))"
      by (rule consistent_endTime)
    assume "terminal (status (heap (mgr s) ! b))"
    with ok b show "heap (mgr (step e s)) ! b = heap (mgr s) ! b"
      by (rule step_keeps_terminal)
  qed
qed

theorem status_life_cycle_witness:
  "remdups_adj (status_history 0
      (states [Create ''job-1'' ''toolA'' [] 0, Begin 0 0, Settle 0 (Inl (Error ''boom'')) 0 5,
               ClearCompleted] initial_server))
     = [Pending, Running, Failed]
   \<and> endTime (heap (mgr (run [Create ''job-1'' ''toolA'' [] 0, Begin 0 0,
        Settle 0 (Inl (Error ''boom'')) 0 5] initial_server)) ! 0) = Some 5
   \<and> heap (mgr (step ClearCompleted (run [Create ''job-1'' ''toolA'' [] 0, Begin 0 0,
        Settle 0 (Inl (Error ''boom'')) 0 5] initial_server))) ! 0
     = heap (mgr (run [Create ''job-1'' ''toolA'' [] 0, Begin 0 0,
        Settle 0 (Inl (Error ''boom'')) 0 5] initial_server)) ! 0"
  using status_life_cycle [of 0 "[Create ''job-1'' ''toolA'' [] 0, Begin 0 0,
      Settle 0 (Inl (Error ''boom'')) 0 5, ClearCompleted]" ClearCompleted]
  by (simp add: initial_server_def status_history_Cons heap_processJob_begin
      heap_processJob_resume new_job_def)

end
